theory Spec2Isabelle
  imports Complex_Main
begin

section \<open>The Binding of Sigma: simulation core of \<^verbatim>\<open>src/App.tsx\<close>\<close>

text \<open>
  A shallow embedding of the game logic of \<^verbatim>\<open>src/App.tsx\<close>: the geometry utilities,
  the facing computation, the dungeon generator, the item pickup effect and the
  per-frame \<^verbatim>\<open>update\<close> function.

  Conventions of the embedding.
  \<^item> A TypeScript \<^verbatim>\<open>number\<close> that holds a coordinate, a size, a speed, a health value or
    a time is a \<^typ>\<open>real\<close>; a grid coordinate or a facing index is an \<^typ>\<open>int\<close>; an array
    index is a \<^typ>\<open>nat\<close>. Rounding, infinities and NaN of IEEE doubles are not
    represented: where the source divides by a distance that is zero it obtains NaN,
    where HOL has \<open>x / 0 = 0\<close>; no theorem below rests on such a division.
  \<^item> \<^verbatim>\<open>Math.random()\<close> and \<^verbatim>\<open>Date.now()\<close> are inputs of the functions that call them.
  \<^item> The builtins \<^verbatim>\<open>Math.atan2\<close>, \<^verbatim>\<open>Math.random\<close> and the operator \<^verbatim>\<open>%\<close> are given
    their meaning in the language; React's state setters are given the meaning stated
    with the session state below.
\<close>

subsection \<open>Data model\<close>

text \<open>
  Modelled from the spec: the declarations of \<^verbatim>\<open>src/types.ts\<close> (\<^verbatim>\<open>Vector2\<close>, \<^verbatim>\<open>Entity\<close>,
  \<^verbatim>\<open>Projectile\<close>, \<^verbatim>\<open>Item\<close>, \<^verbatim>\<open>Room\<close>, \<^verbatim>\<open>Direction\<close>, \<^verbatim>\<open>GameState\<close>), which
  \<^verbatim>\<open>src/App.tsx\<close> imports, are missing from the sources. The types of this subsection
  follow section 3 of the specification and the object literals, string constants and
  field accesses of \<^verbatim>\<open>src/App.tsx\<close>; \<^verbatim>\<open>ItemType\<close> follows \<^verbatim>\<open>ITEM_TYPES\<close> of
  \<^verbatim>\<open>src/constants.ts\<close>.
\<close>

record Vector2 =
  vec_x :: real
  vec_y :: real

datatype EntityType = PLAYER | ENEMY | BOSS | PROJECTILE | ITEM

datatype Variant = BASIC | SHOOTER | DASHER | TANK

datatype ItemType = HEALTH | DAMAGE | SPEED | TRIPLE_SHOT | PIERCING | BIG_TEARS

datatype Owner = OWNER_PLAYER | OWNER_ENEMY

datatype Direction = UP | DOWN | LEFT | RIGHT

datatype GameState = MENU | PLAYING | ITEM_PICKUP_ANIMATION | VICTORY | GAME_OVER

text \<open>
  Entity identifiers are template strings of the source. Each template is injective in
  its arguments and no two templates produce the same string, so an identifier is kept
  as the template's name with its arguments:
  \<^verbatim>\<open>'player'\<close>, \<^verbatim>\<open>`enemy-${id}-${j}`\<close>, \<^verbatim>\<open>`boss-${id}`\<close>, \<^verbatim>\<open>`item-${id}`\<close>,
  \<^verbatim>\<open>`item-${Date.now()}`\<close>, \<^verbatim>\<open>`p-${now}-${idx}`\<close>, \<^verbatim>\<open>`ep-${Date.now()}-${Math.random()}`\<close>,
  where a room's \<^verbatim>\<open>id\<close> is \<^verbatim>\<open>`${x},${y}`\<close>, kept as the pair of grid coordinates.
\<close>

type_synonym RoomId = "int \<times> int"

datatype EntityId =
    PlayerId
  | EnemyId RoomId nat
  | BossId RoomId
  | RoomItemId RoomId
  | DropItemId real
  | ShotId real nat
  | EnemyShotId real real

text \<open>
  The fields of an entity are those of the object literals of \<^verbatim>\<open>createPlayer\<close> and
  \<^verbatim>\<open>generateDungeon\<close>. The fields \<^verbatim>\<open>variant\<close>, \<^verbatim>\<open>attackCooldown\<close> and \<^verbatim>\<open>facing\<close>, which some
  literals leave out, are options, \<open>None\<close> standing for an absent field. \<^verbatim>\<open>Projectile\<close>
  and \<^verbatim>\<open>Item\<close> extend \<^verbatim>\<open>Entity\<close>, as \<^verbatim>\<open>checkCollision\<close> takes both.
\<close>

record Entity =
  id_e :: EntityId
  type_e :: EntityType
  position :: Vector2
  velocity :: Vector2
  size_e :: real
  color :: string
  health :: real
  maxHealth :: real
  damage :: real
  speed :: real
  isActive :: bool
  modifiers :: "string list"
  facing :: "int option"
  variant :: "Variant option"
  attackCooldown :: "real option"

record Projectile = Entity +
  owner :: Owner
  piercing :: bool
  hitIds :: "EntityId list"

record Item = Entity +
  itemType :: ItemType
  name_i :: string
  description :: string
  statDescription :: string

record Room =
  id_r :: RoomId
  gridX :: int
  gridY :: int
  cleared :: bool
  enemies :: "Entity list"
  items :: "Item list"
  doors :: "Direction \<rightharpoonup> bool"
  isBossRoom :: bool
  isItemRoom :: bool

subsection \<open>Constants (\<^verbatim>\<open>src/constants.ts\<close>)\<close>

definition CANVAS_WIDTH :: real where "CANVAS_WIDTH = 800"
definition CANVAS_HEIGHT :: real where "CANVAS_HEIGHT = 600"
definition PLAYER_SIZE :: real where "PLAYER_SIZE = 30"
definition PROJECTILE_SIZE :: real where "PROJECTILE_SIZE = 10"
definition ENEMY_SIZE :: real where "ENEMY_SIZE = 35"
definition ITEM_SIZE :: real where "ITEM_SIZE = 25"
definition PLAYER_BASE_SPEED :: real where "PLAYER_BASE_SPEED = 3.5"
definition PROJECTILE_SPEED :: real where "PROJECTILE_SPEED = 7"
definition ENEMY_SPEED :: real where "ENEMY_SPEED = 1.5"
definition ITEM_TYPES :: "ItemType list" where
  "ITEM_TYPES = [HEALTH, DAMAGE, SPEED, TRIPLE_SHOT, PIERCING, BIG_TEARS]"

subsection \<open>Geometry utilities\<close>

definition getDistance :: "Vector2 \<Rightarrow> Vector2 \<Rightarrow> real" where
  "getDistance a b = sqrt ((vec_x b - vec_x a) ^ 2 + (vec_y b - vec_y a) ^ 2)"

definition checkCollision :: "'a Entity_scheme \<Rightarrow> 'b Entity_scheme \<Rightarrow> bool" where
  "checkCollision a b =
     (let dist = getDistance (position a) (position b)
      in dist < size_e a / 2 + size_e b / 2)"

subsection \<open>Facing\<close>

text \<open>
  \<^verbatim>\<open>Math.atan2(y, x)\<close>, a builtin of the language: the angle in \<open>(-\<pi>, \<pi>]\<close> of the point
  \<open>(x, y)\<close>, as ECMAScript defines it on finite arguments, with \<open>atan2 0 0 = 0\<close>.
\<close>

definition atan2 :: "real \<Rightarrow> real \<Rightarrow> real" where
  "atan2 y x =
     (if 0 < x then arctan (y / x)
      else if x < 0 then (if 0 \<le> y then arctan (y / x) + pi else arctan (y / x) - pi)
      else if 0 < y then pi / 2
      else if y < 0 then - (pi / 2)
      else 0)"

text \<open>The remainder operator \<^verbatim>\<open>%\<close> of the language: the result has the sign of the dividend.\<close>

definition js_trunc :: "real \<Rightarrow> int" where
  "js_trunc r = (if 0 \<le> r then \<lfloor>r\<rfloor> else \<lceil>r\<rceil>)"

definition js_rem :: "real \<Rightarrow> real \<Rightarrow> real" where
  "js_rem a b = a - b * of_int (js_trunc (a / b))"

definition js_rem_int :: "int \<Rightarrow> int \<Rightarrow> int" where
  "js_rem_int a b = sgn a * (\<bar>a\<bar> mod \<bar>b\<bar>)"

definition getFacingFromVelocity :: "real \<Rightarrow> real \<Rightarrow> int \<Rightarrow> int" where
  "getFacingFromVelocity vx vy currentFacing =
     (if \<bar>vx\<bar> < 0.1 \<and> \<bar>vy\<bar> < 0.1 then currentFacing
      else
        let angle = atan2 vy vx;
            deg0 = angle * (180 / pi);
            deg = (if deg0 < 0 then deg0 + 360 else deg0);
            index = \<lfloor>js_rem (deg + 22.5) 360 / 45\<rfloor>
        in js_rem_int (index - 2 + 8) 8)"

text \<open>
  The call sites pass \<^verbatim>\<open>playerState.facing\<close> and \<^verbatim>\<open>enemy.facing\<close>; the boss has no
  \<^verbatim>\<open>facing\<close> field, and \<^verbatim>\<open>undefined\<close> is handed back when the velocity is below the
  threshold.
\<close>

definition facingFromVelocity :: "real \<Rightarrow> real \<Rightarrow> int option \<Rightarrow> int option" where
  "facingFromVelocity vx vy currentFacing =
     (case currentFacing of
        Some f \<Rightarrow> Some (getFacingFromVelocity vx vy f)
      | None \<Rightarrow> if \<bar>vx\<bar> < 0.1 \<and> \<bar>vy\<bar> < 0.1 then None
                else Some (getFacingFromVelocity vx vy 0))"

subsection \<open>Random draws\<close>

text \<open>
  \<^verbatim>\<open>Math.random()\<close>, a builtin of the language, returns a number \<open>r\<close> with \<open>0 \<le> r < 1\<close>. A
  draw is such a number, so an index \<^verbatim>\<open>Math.floor(Math.random() * n)\<close> into an array of
  length \<open>n > 0\<close> is in range.
\<close>

typedef draw = "{r :: real. 0 \<le> r \<and> r < 1}"
  morphisms draw_val Draw
  by (rule exI [of _ 0]) simp

setup_lifting type_definition_draw

lift_definition draw_of :: "real \<Rightarrow> draw" is "\<lambda>r. if 0 \<le> r \<and> r < 1 then r else 0"
  by simp

definition randomIndex :: "draw \<Rightarrow> nat \<Rightarrow> nat" where
  "randomIndex r n = nat \<lfloor>draw_val r * real n\<rfloor>"

subsection \<open>Initial state generators\<close>

definition createPlayer :: Entity where
  "createPlayer =
     \<lparr>id_e = PlayerId, type_e = PLAYER,
      position = \<lparr>vec_x = CANVAS_WIDTH / 2, vec_y = CANVAS_HEIGHT / 2\<rparr>,
      velocity = \<lparr>vec_x = 0, vec_y = 0\<rparr>,
      size_e = PLAYER_SIZE, color = ''pink'', health = 6, maxHealth = 6, damage = 3.5,
      speed = PLAYER_BASE_SPEED, isActive = True, modifiers = [], facing = Some 0,
      variant = None, attackCooldown = None\<rparr>"

text \<open>
  The name and the stat line of an item: both \<^verbatim>\<open>generateDungeon\<close> and \<^verbatim>\<open>spawnItem\<close> run
  the same chain of six \<^verbatim>\<open>if (randomType === ...)\<close> assignments, one of which always
  fires, so the initial values (\<^verbatim>\<open>"Mewing Manual"\<close>, \<^verbatim>\<open>"Mystery Loot"\<close>) never survive.
\<close>

fun itemName :: "ItemType \<Rightarrow> string" where
  "itemName DAMAGE = ''Grimace Shake''"
| "itemName SPEED = ''Energy Drink''"
| "itemName TRIPLE_SHOT = ''The Squad''"
| "itemName PIERCING = ''Fanum's Fork''"
| "itemName BIG_TEARS = ''Mogger Mode''"
| "itemName HEALTH = ''Lunchly Meal''"

fun itemStat :: "ItemType \<Rightarrow> string" where
  "itemStat DAMAGE = ''Damage +1.5''"
| "itemStat SPEED = ''Speed +0.5''"
| "itemStat TRIPLE_SHOT = ''Shoots 3 tears at once''"
| "itemStat PIERCING = ''Shots pass through enemies''"
| "itemStat BIG_TEARS = ''Massive Tears + Damage Up''"
| "itemStat HEALTH = ''Health Up + Full Heal''"

definition makeItem :: "EntityId \<Rightarrow> ItemType \<Rightarrow> real \<Rightarrow> real \<Rightarrow> string \<Rightarrow> Item" where
  "makeItem ident randomType px py desc =
     \<lparr>id_e = ident, type_e = ITEM,
      position = \<lparr>vec_x = px, vec_y = py\<rparr>,
      velocity = \<lparr>vec_x = 0, vec_y = 0\<rparr>,
      size_e = ITEM_SIZE, color = ''gold'', health = 1, maxHealth = 1, damage = 0,
      speed = 0, isActive = True, modifiers = [], facing = None,
      variant = None, attackCooldown = None,
      itemType = randomType, name_i = itemName randomType, description = desc,
      statDescription = itemStat randomType\<rparr>"

subsection \<open>Dungeon generator\<close>

text \<open>
  The random choices of \<^verbatim>\<open>generateDungeon\<close>. Each turn of the growth loop draws the
  parent and shuffles the four directions; the shuffle
  \<^verbatim>\<open>dirs.sort(() => Math.random() - 0.5)\<close> is left to the engine's sort, so the
  shuffled array is taken as given. The loop has no bound of its own (a turn whose
  parent has no free neighbour changes nothing), so the draws are a finite list and the
  generator returns \<open>None\<close> when the list is used up before the loop ends.
\<close>

record GenRandom =
  growthDraws :: "(draw \<times> (int \<times> int) list) list"
  itemRoomDraw :: draw
  itemTypeDraw :: draw
  countDraw :: "RoomId \<Rightarrow> draw"
  enemyDraws :: "RoomId \<Rightarrow> nat \<Rightarrow> draw \<times> draw \<times> draw \<times> draw"

definition dirs :: "(int \<times> int) list" where
  "dirs = [(0, -1), (0, 1), (-1, 0), (1, 0)]"

fun tryDirs :: "RoomId \<Rightarrow> (int \<times> int) list \<Rightarrow> RoomId list \<Rightarrow> RoomId option" where
  "tryDirs parent [] visited = None"
| "tryDirs parent (dir # rest) visited =
     (let nx = fst parent + fst dir; ny = snd parent + snd dir
      in if (nx, ny) \<notin> set visited then Some (nx, ny) else tryDirs parent rest visited)"

fun grow :: "nat \<Rightarrow> (draw \<times> (int \<times> int) list) list \<Rightarrow> RoomId list \<Rightarrow> RoomId list
    \<Rightarrow> RoomId list option" where
  "grow targetCount draws visited candidates =
     (if \<not> length visited < targetCount then Some visited
      else if candidates = [] then Some visited
      else case draws of
        [] \<Rightarrow> None
      | (r, shuffled) # draws' \<Rightarrow>
          let parent = candidates ! randomIndex r (length candidates)
          in case tryDirs parent shuffled visited of
               None \<Rightarrow> grow targetCount draws' visited candidates
             | Some n \<Rightarrow> grow targetCount draws' (visited @ [n]) (candidates @ [n]))"

fun findBoss :: "RoomId list \<Rightarrow> int \<Rightarrow> RoomId option \<Rightarrow> RoomId option" where
  "findBoss [] maxDist bossId = bossId"
| "findBoss (pos # rest) maxDist bossId =
     (let dist = \<bar>fst pos\<bar> + \<bar>snd pos\<bar>
      in if dist > maxDist \<and> pos \<noteq> (0, 0) then findBoss rest dist (Some pos)
         else findBoss rest maxDist bossId)"

definition makeBoss :: "RoomId \<Rightarrow> Entity" where
  "makeBoss rid =
     \<lparr>id_e = BossId rid, type_e = BOSS,
      position = \<lparr>vec_x = CANVAS_WIDTH / 2, vec_y = 150\<rparr>,
      velocity = \<lparr>vec_x = 0, vec_y = 0\<rparr>,
      size_e = ENEMY_SIZE * 2.5, color = ''darkred'', health = 150, maxHealth = 150,
      damage = 2, speed = ENEMY_SPEED * 1.5, isActive = True, modifiers = [],
      facing = None, variant = None, attackCooldown = Some 0\<rparr>"

definition makeEnemy :: "RoomId \<Rightarrow> int \<Rightarrow> nat \<Rightarrow> draw \<times> draw \<times> draw \<times> draw \<Rightarrow> Entity" where
  "makeEnemy rid distFactor j rs =
     (let (r, rx, ry, rc) = rs;
          rand = draw_val r;
          hp = 10 + real_of_int (distFactor * 2);
          (v, hp, spd, sz, col) =
            (if rand > 0.85 then (TANK, hp * 2, ENEMY_SPEED * 0.6, ENEMY_SIZE * 1.3, ''green'')
             else if rand > 0.65 then (SHOOTER, hp * 0.7, ENEMY_SPEED * 0.8, ENEMY_SIZE, ''purple'')
             else if rand > 0.5 then (DASHER, hp * 0.8, ENEMY_SPEED * 1.2, ENEMY_SIZE, ''yellow'')
             else (BASIC, hp, ENEMY_SPEED, ENEMY_SIZE, ''red''))
      in \<lparr>id_e = EnemyId rid j, type_e = ENEMY,
          position = \<lparr>vec_x = 100 + draw_val rx * (CANVAS_WIDTH - 200),
                      vec_y = 100 + draw_val ry * (CANVAS_HEIGHT - 200)\<rparr>,
          velocity = \<lparr>vec_x = 0, vec_y = 0\<rparr>,
          size_e = sz, color = col, health = hp, maxHealth = 10, damage = 1, speed = spd,
          isActive = True, modifiers = [], facing = Some 0, variant = Some v,
          attackCooldown = Some (draw_val rc * 2000)\<rparr>)"

definition buildRoom :: "GenRandom \<Rightarrow> RoomId option \<Rightarrow> RoomId option \<Rightarrow> RoomId \<Rightarrow> Room" where
  "buildRoom rnd bossId itemRoomId pos =
     (let isBoss = (Some pos = bossId);
          isItem = (Some pos = itemRoomId);
          isStart = (pos = (0, 0));
          distFactor = \<bar>fst pos\<bar> + \<bar>snd pos\<bar>;
          count = nat (\<lfloor>draw_val (countDraw rnd pos) * 3\<rfloor> + 1 + distFactor div 4);
          es = (if isItem then []
                else if isBoss then [makeBoss pos]
                else if \<not> isStart
                  then map (\<lambda>j. makeEnemy pos distFactor j (enemyDraws rnd pos j)) [0..<count]
                else []);
          its = (if isItem
                 then [makeItem (RoomItemId pos)
                         (ITEM_TYPES ! randomIndex (itemTypeDraw rnd) (length ITEM_TYPES))
                         (CANVAS_WIDTH / 2) (CANVAS_HEIGHT / 2) ''Free loot'']
                 else [])
      in \<lparr>id_r = pos, gridX = fst pos, gridY = snd pos, cleared = (isStart \<or> isItem),
          enemies = es, items = its, doors = Map.empty,
          isBossRoom = isBoss, isItemRoom = isItem\<rparr>)"

text \<open>
  Linking doors. The source assigns \<^verbatim>\<open>r.doors[...] = true\<close> in place while it walks the
  array; the four searches read \<^verbatim>\<open>gridX\<close> and \<^verbatim>\<open>gridY\<close> only, which the walk never
  changes, so each room is linked against the array as it was.
\<close>

definition linkRoom :: "Room list \<Rightarrow> Room \<Rightarrow> Room" where
  "linkRoom rs r =
     (let up = find (\<lambda>n. gridX n = gridX r \<and> gridY n = gridY r - 1) rs;
          down = find (\<lambda>n. gridX n = gridX r \<and> gridY n = gridY r + 1) rs;
          left = find (\<lambda>n. gridX n = gridX r - 1 \<and> gridY n = gridY r) rs;
          right = find (\<lambda>n. gridX n = gridX r + 1 \<and> gridY n = gridY r) rs;
          d = doors r;
          d = (if up \<noteq> None then d(UP \<mapsto> True) else d);
          d = (if down \<noteq> None then d(DOWN \<mapsto> True) else d);
          d = (if left \<noteq> None then d(LEFT \<mapsto> True) else d);
          d = (if right \<noteq> None then d(RIGHT \<mapsto> True) else d)
      in r\<lparr>doors := d\<rparr>)"

definition linkDoors :: "Room list \<Rightarrow> Room list" where
  "linkDoors rs = map (linkRoom rs) rs"

definition generateDungeon :: "nat \<Rightarrow> GenRandom \<Rightarrow> Room list option" where
  "generateDungeon targetCount rnd =
     (case grow targetCount (growthDraws rnd) [(0, 0)] [(0, 0)] of
        None \<Rightarrow> None
      | Some visited \<Rightarrow>
          let bossId = findBoss visited (-1) None;
              possibleItemRooms = filter (\<lambda>k. k \<noteq> (0, 0) \<and> Some k \<noteq> bossId) visited;
              itemRoomId =
                (if length possibleItemRooms > 0
                 then Some (possibleItemRooms !
                        randomIndex (itemRoomDraw rnd) (length possibleItemRooms))
                 else None)
          in Some (linkDoors (map (buildRoom rnd bossId itemRoomId) visited)))"

text \<open>A truthy entry of \<^verbatim>\<open>room.doors\<close>, as the tests \<^verbatim>\<open>currentRoom.doors[Direction.UP]\<close> read it.\<close>

definition hasDoor :: "Room \<Rightarrow> Direction \<Rightarrow> bool" where
  "hasDoor r d = (doors r d = Some True)"

text \<open>The grid offset of a direction, as the four searches of the door linking use it.\<close>

fun offset :: "Direction \<Rightarrow> int \<times> int" where
  "offset UP = (0, -1)"
| "offset DOWN = (0, 1)"
| "offset LEFT = (-1, 0)"
| "offset RIGHT = (1, 0)"

fun opposite :: "Direction \<Rightarrow> Direction" where
  "opposite UP = DOWN"
| "opposite DOWN = UP"
| "opposite LEFT = RIGHT"
| "opposite RIGHT = LEFT"

declare grow.simps [simp del]

subsection \<open>Session state and frame input\<close>

text \<open>
  The state the frame loop reads through its refs and writes through the state setters.
  The step is taken between two renders: the refs hold the state the previous step
  committed, and the updater functions a step hands to \<^verbatim>\<open>setPlayer\<close> and \<^verbatim>\<open>setRooms\<close> run
  in the order of the calls, after \<^verbatim>\<open>update\<close> has returned. The modal message is display
  only and is left out.
\<close>

record GameData =
  gameState :: GameState
  player :: Entity
  rooms :: "Room list"
  currentRoomIndex :: nat
  projectiles :: "Projectile list"
  lastShotTime :: real

text \<open>
  What one call of \<^verbatim>\<open>update\<close> reads from outside the state: the elapsed time, the two
  joystick vectors, the set of pressed keys, the clock (\<^verbatim>\<open>Date.now()\<close>, read as one value
  for the whole call) and the results of \<^verbatim>\<open>Math.random()\<close>, indexed by the position in
  \<^verbatim>\<open>currentRoom.enemies\<close> of the enemy whose processing draws them.
\<close>

record FrameInput =
  dt :: real
  moveInput :: Vector2
  shootInput :: Vector2
  keysPressed :: "string set"
  now :: real
  shotIdRoll :: "nat \<Rightarrow> draw"
  dropRoll :: "nat \<Rightarrow> draw"
  spawnTypeRoll :: "nat \<Rightarrow> draw"
  damageRoll :: draw

subsection \<open>Item pickup\<close>

text \<open>The updater that \<^verbatim>\<open>handleItemPickup\<close> hands to \<^verbatim>\<open>setPlayer\<close>.\<close>

definition pickupPlayer :: "Item \<Rightarrow> Entity \<Rightarrow> Entity" where
  "pickupPlayer item p =
     (let newP = p;
          newP = (if itemType item = HEALTH
                  then (let q = newP\<lparr>maxHealth := maxHealth newP + 2\<rparr>
                        in q\<lparr>health := maxHealth q\<rparr>)
                  else newP);
          newP = (if itemType item = DAMAGE then newP\<lparr>damage := damage newP + 1.5\<rparr> else newP);
          newP = (if itemType item = SPEED then newP\<lparr>speed := speed newP + 0.5\<rparr> else newP);
          newP = (if itemType item = TRIPLE_SHOT
                  then newP\<lparr>modifiers := modifiers newP @ [''TRIPLE_SHOT'']\<rparr> else newP);
          newP = (if itemType item = PIERCING
                  then newP\<lparr>modifiers := modifiers newP @ [''PIERCING'']\<rparr> else newP);
          newP = (if itemType item = BIG_TEARS
                  then (let q = newP\<lparr>damage := damage newP + 2\<rparr>
                        in q\<lparr>modifiers := modifiers q @ [''BIG_TEARS'']\<rparr>)
                  else newP)
      in newP)"

definition handleItemPickup :: "Item \<Rightarrow> GameData \<Rightarrow> GameData" where
  "handleItemPickup item s =
     s\<lparr>gameState := ITEM_PICKUP_ANIMATION, player := pickupPlayer item (player s)\<rparr>"

subsection \<open>The simulation step: player\<close>

definition rawMove :: "FrameInput \<Rightarrow> real \<times> real" where
  "rawMove inp =
     (let dx = vec_x (moveInput inp);
          dy = vec_y (moveInput inp);
          keys = keysPressed inp;
          dy = (if ''KeyW'' \<in> keys then dy - 1 else dy);
          dy = (if ''KeyS'' \<in> keys then dy + 1 else dy);
          dx = (if ''KeyA'' \<in> keys then dx - 1 else dx);
          dx = (if ''KeyD'' \<in> keys then dx + 1 else dx)
      in (dx, dy))"

definition moveDirection :: "FrameInput \<Rightarrow> real \<times> real" where
  "moveDirection inp =
     (let (dx, dy) = rawMove inp;
          len = sqrt (dx * dx + dy * dy)
      in if len > 1.0 then (dx / len, dy / len)
         else if len < 0.1 then (0, 0)
         else (dx, dy))"

definition isRoomCleared :: "Room \<Rightarrow> bool" where
  "isRoomCleared currentRoom =
     (cleared currentRoom \<or> list_all (\<lambda>e. \<not> isActive e) (enemies currentRoom))"

definition tentativePosition :: "Entity \<Rightarrow> Room \<Rightarrow> FrameInput \<Rightarrow> real \<times> real" where
  "tentativePosition playerState currentRoom inp =
     (let (dx, dy) = moveDirection inp;
          nextX = vec_x (position playerState) + dx * speed playerState;
          nextY = vec_y (position playerState) + dy * speed playerState;
          wallThickness = 50;
          minSafe = wallThickness + size_e playerState / 2;
          maxSafeX = CANVAS_WIDTH - minSafe;
          maxSafeY = CANVAS_HEIGHT - minSafe;
          doorHalfWidth = 60;
          inVerticalDoorZone = (\<bar>nextX - CANVAS_WIDTH / 2\<bar> < doorHalfWidth);
          inHorizontalDoorZone = (\<bar>nextY - CANVAS_HEIGHT / 2\<bar> < doorHalfWidth);
          nextY = (if nextY < minSafe \<and>
                      (\<not> isRoomCleared currentRoom \<or> \<not> hasDoor currentRoom UP
                        \<or> \<not> inVerticalDoorZone)
                   then minSafe else nextY);
          nextY = (if nextY > maxSafeY \<and>
                      (\<not> isRoomCleared currentRoom \<or> \<not> hasDoor currentRoom DOWN
                        \<or> \<not> inVerticalDoorZone)
                   then maxSafeY else nextY);
          nextX = (if nextX < minSafe \<and>
                      (\<not> isRoomCleared currentRoom \<or> \<not> hasDoor currentRoom LEFT
                        \<or> \<not> inHorizontalDoorZone)
                   then minSafe else nextX);
          nextX = (if nextX > maxSafeX \<and>
                      (\<not> isRoomCleared currentRoom \<or> \<not> hasDoor currentRoom RIGHT
                        \<or> \<not> inHorizontalDoorZone)
                   then maxSafeX else nextX)
      in (nextX, nextY))"

definition makeShot :: "Entity \<Rightarrow> FrameInput \<Rightarrow> real \<Rightarrow> real \<Rightarrow> nat \<times> real \<Rightarrow> Projectile" where
  "makeShot playerState inp nextX nextY ia =
     (let (idx, angle) = ia;
          vx = cos angle * PROJECTILE_SPEED;
          vy = sin angle * PROJECTILE_SPEED
      in \<lparr>id_e = ShotId (now inp) idx, type_e = PROJECTILE,
          position = \<lparr>vec_x = nextX, vec_y = nextY\<rparr>,
          velocity = \<lparr>vec_x = vx, vec_y = vy\<rparr>,
          size_e = (if ''BIG_TEARS'' \<in> set (modifiers playerState)
                    then PROJECTILE_SIZE * 2.2 else PROJECTILE_SIZE),
          color = ''blue'', health = 1, maxHealth = 1, damage = damage playerState,
          speed = PROJECTILE_SPEED, isActive = True, modifiers = [], facing = None,
          variant = None, attackCooldown = None,
          owner = OWNER_PLAYER, piercing = (''PIERCING'' \<in> set (modifiers playerState)),
          hitIds = []\<rparr>)"

text \<open>The projectiles pushed by the shooting block, and the new \<^verbatim>\<open>lastShotTimeRef\<close>.\<close>

definition shoot :: "Entity \<Rightarrow> FrameInput \<Rightarrow> real \<Rightarrow> real \<Rightarrow> real \<Rightarrow> Projectile list \<times> real" where
  "shoot playerState inp lastShot nextX nextY =
     (let fireRate = 400 in
      if now inp - lastShot > fireRate then
        (let sx = vec_x (shootInput inp);
             sy = vec_y (shootInput inp);
             keys = keysPressed inp;
             (sx, sy) =
               (if ''ArrowUp'' \<in> keys then (sx, -1)
                else if ''ArrowDown'' \<in> keys then (sx, 1)
                else if ''ArrowLeft'' \<in> keys then (-1, sy)
                else if ''ArrowRight'' \<in> keys then (1, sy)
                else (sx, sy));
             shotMag = sqrt (sx * sx + sy * sy)
         in if shotMag > 0.4 then
              (let baseAngle = atan2 sy sx;
                   hasTriple = (''TRIPLE_SHOT'' \<in> set (modifiers playerState));
                   angles = (if hasTriple then [baseAngle - 0.25, baseAngle, baseAngle + 0.25]
                             else [baseAngle])
               in (map (makeShot playerState inp nextX nextY) (enumerate 0 angles), now inp))
            else ([], lastShot))
      else ([], lastShot))"

subsection \<open>The simulation step: enemies\<close>

definition enemyShot :: "FrameInput \<Rightarrow> nat \<Rightarrow> Entity \<Rightarrow> real \<Rightarrow> real \<Rightarrow> Projectile" where
  "enemyShot inp j enemy dx dy =
     (let angle = atan2 dy dx
      in \<lparr>id_e = EnemyShotId (now inp) (draw_val (shotIdRoll inp j)), type_e = PROJECTILE,
          position = \<lparr>vec_x = vec_x (position enemy), vec_y = vec_y (position enemy)\<rparr>,
          velocity = \<lparr>vec_x = cos angle * 4, vec_y = sin angle * 4\<rparr>,
          size_e = PROJECTILE_SIZE, color = ''red'', health = 1, maxHealth = 1, damage = 1,
          speed = 4, isActive = True, modifiers = [], facing = None,
          variant = None, attackCooldown = None,
          owner = OWNER_ENEMY, piercing = False, hitIds = []\<rparr>)"

text \<open>
  The behaviour block of one active enemy, after its cooldown has been decayed to \<open>cd\<close>:
  the velocity \<open>(vx, vy)\<close>, the cooldown as the block leaves it, and the projectile a
  shooter pushes.
\<close>

definition enemyAI :: "FrameInput \<Rightarrow> nat \<Rightarrow> real \<Rightarrow> real \<Rightarrow> Entity \<Rightarrow> real
    \<Rightarrow> (real \<times> real) \<times> real \<times> Projectile list" where
  "enemyAI inp j nextX nextY enemy cd =
     (let dx = nextX - vec_x (position enemy);
          dy = nextY - vec_y (position enemy);
          dist = sqrt (dx * dx + dy * dy);
          moveSpeed = speed enemy
      in if variant enemy = Some SHOOTER then
           (let v = (if dist > 250 then ((dx / dist) * moveSpeed, (dy / dist) * moveSpeed)
                     else if dist < 150
                       then (- (dx / dist) * moveSpeed, - (dy / dist) * moveSpeed)
                     else (0, 0))
            in if cd \<le> 0 then (v, 2000, [enemyShot inp j enemy dx dy]) else (v, cd, []))
         else if variant enemy = Some DASHER then
           (let cd = (if cd \<le> 0 then 2500 else cd);
                v = (if cd > 600 then ((dx / dist) * moveSpeed, (dy / dist) * moveSpeed)
                     else if cd > 200 then (0, 0)
                     else ((dx / dist) * (moveSpeed * 4), (dy / dist) * (moveSpeed * 4)))
            in (v, cd, []))
         else
           ((if dist > 5 then ((dx / dist) * moveSpeed, (dy / dist) * moveSpeed) else (0, 0)),
            cd, []))"

text \<open>
  The body of \<^verbatim>\<open>nextProjectiles.forEach\<close> for one projectile and the enemy being
  processed. It mutates the projectile (\<^verbatim>\<open>hitIds\<close>, \<^verbatim>\<open>isActive\<close>), the enemy's health and
  the enemy's position \<open>(eX, eY)\<close>, which the loop carries as \<open>(h, eX, eY)\<close>.
\<close>

definition projectileHit :: "Entity \<Rightarrow> real \<Rightarrow> real \<Rightarrow> Projectile \<Rightarrow> real \<times> real \<times> real
    \<Rightarrow> Projectile \<times> real \<times> real \<times> real" where
  "projectileHit enemy vx vy proj st =
     (let (h, eX, eY) = st in
      if isActive proj \<and> owner proj = OWNER_PLAYER then
        if piercing proj \<and> id_e enemy \<in> set (hitIds proj) then (proj, st)
        else if checkCollision proj (enemy\<lparr>position := \<lparr>vec_x = eX, vec_y = eY\<rparr>\<rparr>) then
          (let h = h - damage proj;
               proj = (if piercing proj then proj\<lparr>hitIds := hitIds proj @ [id_e enemy]\<rparr>
                       else proj\<lparr>isActive := False\<rparr>);
               (eX, eY) = (if variant enemy \<noteq> Some TANK \<and> type_e enemy \<noteq> BOSS
                           then (eX - vx * 6, eY - vy * 6) else (eX, eY))
           in (proj, h, eX, eY))
        else (proj, st)
      else (proj, st))"

fun hitProjectiles :: "Entity \<Rightarrow> real \<Rightarrow> real \<Rightarrow> Projectile list \<Rightarrow> real \<times> real \<times> real
    \<Rightarrow> Projectile list \<times> real \<times> real \<times> real" where
  "hitProjectiles enemy vx vy [] st = ([], st)"
| "hitProjectiles enemy vx vy (proj # rest) st =
     (let (proj', st') = projectileHit enemy vx vy proj st;
          (rest', st'') = hitProjectiles enemy vx vy rest st'
      in (proj' # rest', st''))"

text \<open>
  What the callback of \<^verbatim>\<open>roomEnemies.map\<close> threads from one enemy to the next: the
  array \<^verbatim>\<open>nextProjectiles\<close>, the flag \<^verbatim>\<open>playerHit\<close>, the items handed to \<^verbatim>\<open>spawnItem\<close>
  and whether \<^verbatim>\<open>setGameState(GameState.VICTORY)\<close> was called.
\<close>

record EnemyAcc =
  accProjectiles :: "Projectile list"
  accPlayerHit :: bool
  accSpawned :: "Item list"
  accVictory :: bool

definition spawnItem :: "FrameInput \<Rightarrow> nat \<Rightarrow> real \<Rightarrow> real \<Rightarrow> Item" where
  "spawnItem inp j px py =
     makeItem (DropItemId (now inp))
       (ITEM_TYPES ! randomIndex (spawnTypeRoll inp j) (length ITEM_TYPES))
       px py ''Loading rizz...''"

definition enemyStep :: "FrameInput \<Rightarrow> Entity \<Rightarrow> Room \<Rightarrow> real \<Rightarrow> real \<Rightarrow> nat \<Rightarrow> EnemyAcc
    \<Rightarrow> Entity \<Rightarrow> EnemyAcc \<times> Entity" where
  "enemyStep inp playerState currentRoom nextX nextY j acc enemy =
     (if \<not> isActive enemy then (acc, enemy)
      else
        let cd0 = (case attackCooldown enemy of None \<Rightarrow> 0 | Some c \<Rightarrow> c) - dt inp;
            ((vx, vy), cd, shots) = enemyAI inp j nextX nextY enemy cd0;
            enemyFacing = facingFromVelocity vx vy (facing enemy);
            eX = vec_x (position enemy) + vx;
            eY = vec_y (position enemy) + vy;
            eX = (if eX < 50 then 50 else eX);
            eX = (if eX > CANVAS_WIDTH - 50 then CANVAS_WIDTH - 50 else eX);
            eY = (if eY < 50 then 50 else eY);
            eY = (if eY > CANVAS_HEIGHT - 50 then CANVAS_HEIGHT - 50 else eY);
            contact = checkCollision
                        (playerState\<lparr>position := \<lparr>vec_x = nextX, vec_y = nextY\<rparr>\<rparr>)
                        (enemy\<lparr>position := \<lparr>vec_x = eX, vec_y = eY\<rparr>\<rparr>);
            (projs, h, eX, eY) =
               hitProjectiles enemy vx vy (accProjectiles acc @ shots) (health enemy, eX, eY);
            dead = (h \<le> 0);
            drop = (dead \<and> \<not> isBossRoom currentRoom \<and> \<not> isItemRoom currentRoom
                      \<and> draw_val (dropRoll inp j) > 0.75);
            bossDead = (dead \<and> isBossRoom currentRoom);
            spawned = (if drop then [spawnItem inp j eX eY] else [])
                    @ (if bossDead then [spawnItem inp j (CANVAS_WIDTH / 2) (CANVAS_HEIGHT / 2)]
                       else [])
        in (\<lparr>accProjectiles = projs,
             accPlayerHit = (accPlayerHit acc \<or> contact),
             accSpawned = accSpawned acc @ spawned,
             accVictory = (accVictory acc \<or> bossDead)\<rparr>,
            enemy\<lparr>attackCooldown := Some cd, health := h, isActive := \<not> dead,
                  position := \<lparr>vec_x = eX, vec_y = eY\<rparr>, facing := enemyFacing\<rparr>))"

fun enemiesLoop :: "FrameInput \<Rightarrow> Entity \<Rightarrow> Room \<Rightarrow> real \<Rightarrow> real \<Rightarrow> nat \<Rightarrow> EnemyAcc
    \<Rightarrow> Entity list \<Rightarrow> EnemyAcc \<times> Entity list" where
  "enemiesLoop inp playerState currentRoom nextX nextY j acc [] = (acc, [])"
| "enemiesLoop inp playerState currentRoom nextX nextY j acc (enemy # rest) =
     (let (acc', enemy') = enemyStep inp playerState currentRoom nextX nextY j acc enemy;
          (acc'', rest') = enemiesLoop inp playerState currentRoom nextX nextY (Suc j) acc' rest
      in (acc'', enemy' # rest'))"

text \<open>
  The callback mutates \<^verbatim>\<open>attackCooldown\<close>, \<^verbatim>\<open>health\<close> and \<^verbatim>\<open>isActive\<close> on the enemy object
  itself, which the room's array still holds, and returns a copy that carries the new
  \<^verbatim>\<open>position\<close> and \<^verbatim>\<open>facing\<close>. When the copies are not written back, the room keeps
  the old object with the three fields changed.
\<close>

definition mutatedInPlace :: "Entity \<Rightarrow> Entity \<Rightarrow> Entity" where
  "mutatedInPlace old new = new\<lparr>position := position old, facing := facing old\<rparr>"

subsection \<open>The simulation step: projectiles, items, room switch\<close>

definition inBounds :: "Projectile \<Rightarrow> bool" where
  "inBounds p =
     (isActive p \<and> vec_x (position p) > 0 \<and> vec_x (position p) < CANVAS_WIDTH
        \<and> vec_y (position p) > 0 \<and> vec_y (position p) < CANVAS_HEIGHT)"

definition moveProjectile :: "Projectile \<Rightarrow> Projectile" where
  "moveProjectile p =
     p\<lparr>position := \<lparr>vec_x = vec_x (position p) + vec_x (velocity p),
                     vec_y = vec_y (position p) + vec_y (velocity p)\<rparr>\<rparr>"

definition hitsPlayer :: "Entity \<Rightarrow> real \<Rightarrow> real \<Rightarrow> Projectile \<Rightarrow> bool" where
  "hitsPlayer playerState nextX nextY p =
     (inBounds p \<and> owner p = OWNER_ENEMY
        \<and> checkCollision p (playerState\<lparr>position := \<lparr>vec_x = nextX, vec_y = nextY\<rparr>\<rparr>))"

text \<open>The \<^verbatim>\<open>map\<close> and \<^verbatim>\<open>filter\<close> over \<^verbatim>\<open>nextProjectiles\<close>, with the flag the filter sets.\<close>

definition advanceProjectiles :: "Entity \<Rightarrow> real \<Rightarrow> real \<Rightarrow> Projectile list \<Rightarrow> bool
    \<Rightarrow> Projectile list \<times> bool" where
  "advanceProjectiles playerState nextX nextY ps playerHit =
     (let moved = map moveProjectile ps
      in (filter (\<lambda>p. inBounds p \<and> \<not> hitsPlayer playerState nextX nextY p) moved,
          playerHit \<or> list_ex (hitsPlayer playerState nextX nextY) moved))"

definition touches :: "Entity \<Rightarrow> real \<Rightarrow> real \<Rightarrow> Item \<Rightarrow> bool" where
  "touches playerState nextX nextY item =
     (isActive item
        \<and> checkCollision (playerState\<lparr>position := \<lparr>vec_x = nextX, vec_y = nextY\<rparr>\<rparr>) item)"

text \<open>The outcome of the room switching block: \<^verbatim>\<open>switchedRoom\<close>, the target grid cell and the spawn point.\<close>

definition roomSwitch :: "Room \<Rightarrow> real \<Rightarrow> real \<Rightarrow> bool \<times> int \<times> int \<times> real \<times> real" where
  "roomSwitch currentRoom nextX nextY =
     (if nextY < 20 \<and> hasDoor currentRoom UP
        then (True, gridX currentRoom, gridY currentRoom - 1, CANVAS_WIDTH / 2, CANVAS_HEIGHT - 80)
      else if nextY > CANVAS_HEIGHT - 20 \<and> hasDoor currentRoom DOWN
        then (True, gridX currentRoom, gridY currentRoom + 1, CANVAS_WIDTH / 2, 80)
      else if nextX < 20 \<and> hasDoor currentRoom LEFT
        then (True, gridX currentRoom - 1, gridY currentRoom, CANVAS_WIDTH - 80, CANVAS_HEIGHT / 2)
      else if nextX > CANVAS_WIDTH - 20 \<and> hasDoor currentRoom RIGHT
        then (True, gridX currentRoom + 1, gridY currentRoom, 80, CANVAS_HEIGHT / 2)
      else (False, gridX currentRoom, gridY currentRoom, nextX, nextY))"

fun findIndex :: "('a \<Rightarrow> bool) \<Rightarrow> 'a list \<Rightarrow> nat option" where
  "findIndex P [] = None"
| "findIndex P (x # xs) =
     (if P x then Some 0 else map_option Suc (findIndex P xs))"

subsection \<open>The simulation step\<close>

text \<open>
  One call of \<^verbatim>\<open>update\<close>, from the state one render committed to the state the next one
  commits. Three kinds of write reach the next state:
  \<^item> the values handed to the setters in the branch of the final block that runs;
  \<^item> the updaters queued before it: the one of \<^verbatim>\<open>handleItemPickup\<close> for every item the
    player touches, and the \<^verbatim>\<open>push\<close> of \<^verbatim>\<open>spawnItem\<close> onto the current room's items;
  \<^item> the assignments made on objects the state still holds: \<^verbatim>\<open>attackCooldown\<close>,
    \<^verbatim>\<open>health\<close> and \<^verbatim>\<open>isActive\<close> of an enemy, \<^verbatim>\<open>hitIds\<close> and \<^verbatim>\<open>isActive\<close> of a projectile,
    \<^verbatim>\<open>isActive\<close> of an item, \<^verbatim>\<open>cleared\<close> of the room. They persist in every branch; the
    arrays \<^verbatim>\<open>roomEnemies\<close>, \<^verbatim>\<open>roomItems\<close> and \<^verbatim>\<open>nextProjectiles\<close> are copies and reach the
    state only where the final block stores them.
  The last call of \<^verbatim>\<open>setGameState\<close> in the step decides the session state: the calls
  are, in this order, the one at the boss's death, the one of \<^verbatim>\<open>handleItemPickup\<close> for
  every item touched, and the one at the player's death. \<open>queued\<close> is the state with the
  first two and the player updaters of \<^verbatim>\<open>handleItemPickup\<close> applied.
\<close>

definition update :: "FrameInput \<Rightarrow> GameData \<Rightarrow> GameData" where
  "update inp s =
     (if gameState s \<noteq> PLAYING then s
      else if \<not> currentRoomIndex s < length (rooms s) then s
      else
        let idx = currentRoomIndex s;
            currentRoom = rooms s ! idx;
            playerState = player s;
            (dx, dy) = moveDirection inp;
            nextFacing = facingFromVelocity dx dy (facing playerState);
            (nextX, nextY) = tentativePosition playerState currentRoom inp;
            (shots, lastShot) = shoot playerState inp (lastShotTime s) nextX nextY;
            (acc, roomEnemies) =
               enemiesLoop inp playerState currentRoom nextX nextY 0
                 \<lparr>accProjectiles = projectiles s @ shots, accPlayerHit = False,
                  accSpawned = [], accVictory = False\<rparr>
                 (enemies currentRoom);
            (nextProjectiles, playerHit) =
               advanceProjectiles playerState nextX nextY (accProjectiles acc) (accPlayerHit acc);
            picked = filter (touches playerState nextX nextY) (items currentRoom);
            roomItems = map (\<lambda>item. if touches playerState nextX nextY item
                                     then item\<lparr>isActive := False\<rparr> else item)
                          (items currentRoom);
            damaged = (playerHit \<and> draw_val (damageRoll inp) < 0.05);
            nextPlayerHealth = (if damaged then health playerState - 1 else health playerState);
            queued = fold handleItemPickup picked
                       (if accVictory acc then s\<lparr>gameState := VICTORY\<rparr> else s);
            gs = (if damaged \<and> nextPlayerHealth \<le> 0 then GAME_OVER else gameState queued);
            p = player queued;
            (switchedRoom, nextGridX, nextGridY, spawnX, spawnY) =
               roomSwitch currentRoom nextX nextY;
            keptEnemies = map (\<lambda>(old, new). mutatedInPlace old new)
                            (zip (enemies currentRoom) roomEnemies);
            keptProjectiles = take (length (projectiles s)) (accProjectiles acc);
            keptItems = roomItems @ accSpawned acc
        in
          if switchedRoom then
            if isRoomCleared currentRoom then
              (case findIndex (\<lambda>r. gridX r = nextGridX \<and> gridY r = nextGridY) (rooms s) of
                 Some nextRoomIndex \<Rightarrow>
                   s\<lparr>gameState := gs,
                     player := p\<lparr>position := \<lparr>vec_x = spawnX, vec_y = spawnY\<rparr>\<rparr>,
                     rooms := (rooms s)[idx := currentRoom\<lparr>cleared := True,
                                 enemies := keptEnemies, items := keptItems\<rparr>],
                     currentRoomIndex := nextRoomIndex,
                     projectiles := [],
                     lastShotTime := lastShot\<rparr>
               | None \<Rightarrow>
                   s\<lparr>gameState := gs,
                     player := p,
                     rooms := (rooms s)[idx := currentRoom\<lparr>cleared := True,
                                 enemies := keptEnemies, items := keptItems\<rparr>],
                     projectiles := keptProjectiles,
                     lastShotTime := lastShot\<rparr>)
            else
              s\<lparr>gameState := gs,
                player := p\<lparr>position := \<lparr>vec_x = nextX, vec_y = nextY\<rparr>,
                            health := nextPlayerHealth\<rparr>,
                rooms := (rooms s)[idx := currentRoom\<lparr>enemies := keptEnemies,
                            items := keptItems\<rparr>],
                projectiles := keptProjectiles,
                lastShotTime := lastShot\<rparr>
          else
            s\<lparr>gameState := gs,
              player := p\<lparr>position := \<lparr>vec_x = nextX, vec_y = nextY\<rparr>,
                          health := nextPlayerHealth, facing := nextFacing\<rparr>,
              rooms := (rooms s)[idx := currentRoom\<lparr>enemies := roomEnemies,
                          items := keptItems,
                          cleared := (cleared currentRoom
                                       \<or> list_all (\<lambda>e. \<not> isActive e) roomEnemies)\<rparr>],
              projectiles := nextProjectiles,
              lastShotTime := lastShot\<rparr>)"

text \<open>
  What happens to the state within one run of the game, between two calls of
  \<^verbatim>\<open>startGame\<close>: the frame loop calls \<^verbatim>\<open>update\<close>, and the timer that \<^verbatim>\<open>handleItemPickup\<close>
  starts ends the pickup animation with \<^verbatim>\<open>setGameState(GameState.PLAYING)\<close>.
\<close>

datatype Event = Frame FrameInput | PickupAnimationEnds

fun handle :: "Event \<Rightarrow> GameData \<Rightarrow> GameData" where
  "handle (Frame inp) s = update inp s"
| "handle PickupAnimationEnds s = s\<lparr>gameState := PLAYING\<rparr>"

fun run :: "Event list \<Rightarrow> GameData \<Rightarrow> GameData" where
  "run [] s = s"
| "run (ev # evs) s = run evs (handle ev s)"

text \<open>
  The situation of an aborted room transition: the step runs, the room switching block
  sets \<^verbatim>\<open>switchedRoom\<close> at the player's tentative position, the room counts as cleared,
  and \<^verbatim>\<open>findIndex\<close> finds no room at the target grid cell.
\<close>

definition transitionAborted :: "FrameInput \<Rightarrow> GameData \<Rightarrow> bool" where
  "transitionAborted inp s =
     (gameState s = PLAYING \<and> currentRoomIndex s < length (rooms s) \<and>
      (let currentRoom = rooms s ! currentRoomIndex s;
           (nextX, nextY) = tentativePosition (player s) currentRoom inp;
           (switchedRoom, nextGridX, nextGridY, spawnX, spawnY) =
              roomSwitch currentRoom nextX nextY
       in switchedRoom \<and> isRoomCleared currentRoom
          \<and> findIndex (\<lambda>r. gridX r = nextGridX \<and> gridY r = nextGridY) (rooms s) = None))"

subsection \<open>Hits of a projectile during the enemy pass\<close>

text \<open>
  The array \<^verbatim>\<open>nextProjectiles\<close> as it stands when the callback of \<^verbatim>\<open>roomEnemies.map\<close> has
  returned for the first \<open>k\<close> enemies of \<open>es\<close>, the pass having started from \<open>acc\<close>.
\<close>

definition projectilesAfter :: "FrameInput \<Rightarrow> Entity \<Rightarrow> Room \<Rightarrow> real \<Rightarrow> real \<Rightarrow> EnemyAcc
    \<Rightarrow> Entity list \<Rightarrow> nat \<Rightarrow> Projectile list" where
  "projectilesAfter inp playerState currentRoom nextX nextY acc es k =
     accProjectiles (fst (enemiesLoop inp playerState currentRoom nextX nextY 0 acc (take k es)))"

text \<open>
  Projectile \<open>i\<close> hits enemy \<open>k\<close>: the callback for enemy \<open>k\<close> changes the projectile. The
  body of \<^verbatim>\<open>nextProjectiles.forEach\<close> changes a projectile in one place only, the branch
  that also subtracts its damage from the enemy's health, and there it always changes
  it (it extends \<^verbatim>\<open>hitIds\<close> or clears \<^verbatim>\<open>isActive\<close>, which was set).
\<close>

definition damagedBy :: "FrameInput \<Rightarrow> Entity \<Rightarrow> Room \<Rightarrow> real \<Rightarrow> real \<Rightarrow> EnemyAcc
    \<Rightarrow> Entity list \<Rightarrow> nat \<Rightarrow> nat \<Rightarrow> bool" where
  "damagedBy inp playerState currentRoom nextX nextY acc es i k =
     (projectilesAfter inp playerState currentRoom nextX nextY acc es (Suc k) ! i
        \<noteq> projectilesAfter inp playerState currentRoom nextX nextY acc es k ! i)"

text \<open>What the hit branch does to a projectile \<open>p\<close> when enemy \<open>e\<close> is processed.\<close>

definition struck :: "Entity \<Rightarrow> Projectile \<Rightarrow> Projectile \<Rightarrow> bool" where
  "struck e p p' =
     (isActive p \<and> owner p = OWNER_PLAYER \<and>
      (if piercing p then id_e e \<notin> set (hitIds p) \<and> p' = p\<lparr>hitIds := hitIds p @ [id_e e]\<rparr>
       else p' = p\<lparr>isActive := False\<rparr>))"

text \<open>
  How a later state \<open>p'\<close> of a projectile relates to an earlier state \<open>p\<close> within the enemy
  pass: kind, owner, damage, identity, place and size are the same, the ledger only
  grows, a piercing projectile keeps its active flag, any other never regains it.
\<close>

definition later :: "Projectile \<Rightarrow> Projectile \<Rightarrow> bool" where
  "later p p' =
     (piercing p' = piercing p \<and> owner p' = owner p \<and> damage p' = damage p
      \<and> id_e p' = id_e p \<and> position p' = position p \<and> velocity p' = velocity p
      \<and> size_e p' = size_e p
      \<and> set (hitIds p) \<subseteq> set (hitIds p')
      \<and> (if piercing p then isActive p' = isActive p else isActive p \<or> \<not> isActive p'))"

subsection \<open>Example inputs\<close>

text \<open>Concrete inputs on which the theorems below are exercised.\<close>

definition exampleRandom :: GenRandom where
  "exampleRandom =
     \<lparr>growthDraws = [(draw_of 0, dirs)], itemRoomDraw = draw_of 0, itemTypeDraw = draw_of 0,
      countDraw = (\<lambda>_. draw_of 0),
      enemyDraws = (\<lambda>_ _. (draw_of 0, draw_of 0, draw_of 0, draw_of 0))\<rparr>"

definition quietInput :: FrameInput where
  "quietInput =
     \<lparr>dt = 16, moveInput = \<lparr>vec_x = 0, vec_y = 0\<rparr>, shootInput = \<lparr>vec_x = 0, vec_y = 0\<rparr>,
      keysPressed = {}, now = 1000, shotIdRoll = (\<lambda>_. draw_of 0), dropRoll = (\<lambda>_. draw_of 0),
      spawnTypeRoll = (\<lambda>_. draw_of 0), damageRoll = draw_of 0\<rparr>"

text \<open>
  A basic enemy standing at the left wall of its room, the player at the room's centre,
  and a tear of the player that has reached the enemy.
\<close>

definition wallEnemy :: Entity where
  "wallEnemy =
     \<lparr>id_e = EnemyId (0, 0) 0, type_e = ENEMY,
      position = \<lparr>vec_x = 50, vec_y = 300\<rparr>, velocity = \<lparr>vec_x = 0, vec_y = 0\<rparr>,
      size_e = ENEMY_SIZE, color = ''red'', health = 10, maxHealth = 10, damage = 1,
      speed = ENEMY_SPEED, isActive = True, modifiers = [], facing = Some 0,
      variant = Some BASIC, attackCooldown = Some 0\<rparr>"

definition tear :: Projectile where
  "tear =
     \<lparr>id_e = ShotId 900 0, type_e = PROJECTILE,
      position = \<lparr>vec_x = 51.5, vec_y = 300\<rparr>, velocity = \<lparr>vec_x = -7, vec_y = 0\<rparr>,
      size_e = PROJECTILE_SIZE, color = ''blue'', health = 1, maxHealth = 1, damage = 3.5,
      speed = PROJECTILE_SPEED, isActive = True, modifiers = [], facing = None,
      variant = None, attackCooldown = None,
      owner = OWNER_PLAYER, piercing = False, hitIds = []\<rparr>"

definition wallRoom :: Room where
  "wallRoom =
     \<lparr>id_r = (0, 0), gridX = 0, gridY = 0, cleared = False, enemies = [wallEnemy],
      items = [], doors = Map.empty, isBossRoom = False, isItemRoom = False\<rparr>"

definition wallState :: GameData where
  "wallState =
     \<lparr>gameState = PLAYING, player = createPlayer, rooms = [wallRoom],
      currentRoomIndex = 0, projectiles = [tear], lastShotTime = 900\<rparr>"

text \<open>The same state with the room already cleared, and the input that holds the key D.\<close>

definition clearedState :: GameData where
  "clearedState = wallState\<lparr>rooms := [wallRoom\<lparr>cleared := True\<rparr>]\<rparr>"

definition eastInput :: FrameInput where
  "eastInput = quietInput\<lparr>keysPressed := {''KeyD''}\<rparr>"

text \<open>
  A room without enemies, not yet marked cleared, whose door data names a door upwards
  although the dungeon has no room above; the player stands in the door zone just below
  the upper edge and holds the key W.
\<close>

definition doorRoom :: Room where
  "doorRoom =
     \<lparr>id_r = (0, 0), gridX = 0, gridY = 0, cleared = False, enemies = [],
      items = [], doors = [UP \<mapsto> True], isBossRoom = False, isItemRoom = False\<rparr>"

definition doorState :: GameData where
  "doorState =
     \<lparr>gameState = PLAYING,
      player = createPlayer\<lparr>position := \<lparr>vec_x = 400, vec_y = 22\<rparr>\<rparr>,
      rooms = [doorRoom], currentRoomIndex = 0, projectiles = [], lastShotTime = 900\<rparr>"

definition upInput :: FrameInput where
  "upInput = quietInput\<lparr>keysPressed := {''KeyW''}\<rparr>"

text \<open>
  Two basic enemies at the same place by the wall, and two tears of the player that have
  reached them, the first one piercing.
\<close>

definition pierceTear :: Projectile where
  "pierceTear = tear\<lparr>id_e := ShotId 900 1, piercing := True\<rparr>"

definition wallEnemy2 :: Entity where
  "wallEnemy2 = wallEnemy\<lparr>id_e := EnemyId (0, 0) 1\<rparr>"

definition pairRoom :: Room where
  "pairRoom = wallRoom\<lparr>enemies := [wallEnemy, wallEnemy2]\<rparr>"

definition pairState :: GameData where
  "pairState = wallState\<lparr>rooms := [pairRoom], projectiles := [pierceTear, tear]\<rparr>"

definition pairAcc :: EnemyAcc where
  "pairAcc =
     \<lparr>accProjectiles = [pierceTear, tear], accPlayerHit = False, accSpawned = [],
      accVictory = False\<rparr>"

text \<open>
  An item room as \<^verbatim>\<open>generateDungeon\<close> builds it, holding the health item at its centre,
  and a player with 3 of 6 health who stands 30 below the item, just out of its reach,
  and holds the key W.
\<close>

definition healItem :: Item where
  "healItem = makeItem (RoomItemId (0, 1)) HEALTH (CANVAS_WIDTH / 2) (CANVAS_HEIGHT / 2) ''Free loot''"

definition healRoom :: Room where
  "healRoom =
     \<lparr>id_r = (0, 1), gridX = 0, gridY = 1, cleared = True, enemies = [],
      items = [healItem], doors = Map.empty, isBossRoom = False, isItemRoom = True\<rparr>"

definition healState :: GameData where
  "healState =
     \<lparr>gameState = PLAYING,
      player = createPlayer\<lparr>position := \<lparr>vec_x = 400, vec_y = 330\<rparr>, health := 3\<rparr>,
      rooms = [healRoom], currentRoomIndex = 0, projectiles = [], lastShotTime = 900\<rparr>"

section \<open>Theorems\<close>

lemmas constants_defs =
  CANVAS_WIDTH_def CANVAS_HEIGHT_def PLAYER_SIZE_def PROJECTILE_SIZE_def ENEMY_SIZE_def
  ITEM_SIZE_def PLAYER_BASE_SPEED_def PROJECTILE_SPEED_def ENEMY_SPEED_def

subsection \<open>Square roots against constants\<close>

lemma sqrt_less_iff: "0 < c \<Longrightarrow> sqrt x < c \<longleftrightarrow> x < c\<^sup>2"
  by (metis abs_of_pos real_sqrt_abs real_sqrt_less_iff)

lemma less_sqrt_iff: "0 \<le> c \<Longrightarrow> c < sqrt x \<longleftrightarrow> c\<^sup>2 < x"
  by (metis abs_of_nonneg real_sqrt_abs real_sqrt_less_iff)

lemma sqrt_eq_iff: "0 \<le> c \<Longrightarrow> sqrt x = c \<longleftrightarrow> x = c\<^sup>2"
  by (metis abs_of_nonneg real_sqrt_abs real_sqrt_eq_iff)

lemma sqrt_122500: "sqrt 122500 = 350"
  by (simp add: sqrt_eq_iff)

subsection \<open>Collision predicate\<close>

text \<open>
  C6. \<^verbatim>\<open>checkCollision(a, b)\<close> holds exactly when the Euclidean distance between the two
  positions is strictly less than the sum of the radii \<open>a.size/2 + b.size/2\<close>. Hence two
  entities at the same position with positive sizes collide, two entities further
  apart than the sum of their radii do not, and neither do two entities whose distance
  equals that sum.
\<close>

theorem checkCollision_strict_distance:
  "(checkCollision a b \<longleftrightarrow>
      sqrt ((vec_x (position b) - vec_x (position a))\<^sup>2
            + (vec_y (position b) - vec_y (position a))\<^sup>2)
        < size_e a / 2 + size_e b / 2)
   \<and> (position a = position b \<and> 0 < size_e a \<and> 0 < size_e b \<longrightarrow> checkCollision a b)
   \<and> (size_e a / 2 + size_e b / 2 < getDistance (position a) (position b)
        \<longrightarrow> \<not> checkCollision a b)
   \<and> (getDistance (position a) (position b) = size_e a / 2 + size_e b / 2
        \<longrightarrow> \<not> checkCollision a b)"
  by (simp add: checkCollision_def getDistance_def)

theorem checkCollision_strict_distance_witness:
  "checkCollision createPlayer createPlayer
   \<and> \<not> checkCollision createPlayer (createPlayer\<lparr>position := \<lparr>vec_x = 431, vec_y = 300\<rparr>\<rparr>)
   \<and> \<not> checkCollision createPlayer (createPlayer\<lparr>position := \<lparr>vec_x = 430, vec_y = 300\<rparr>\<rparr>)"
  using checkCollision_strict_distance [of createPlayer createPlayer]
    checkCollision_strict_distance
      [of createPlayer "createPlayer\<lparr>position := \<lparr>vec_x = 431, vec_y = 300\<rparr>\<rparr>"]
    checkCollision_strict_distance
      [of createPlayer "createPlayer\<lparr>position := \<lparr>vec_x = 430, vec_y = 300\<rparr>\<rparr>"]
  by (simp add: createPlayer_def constants_defs getDistance_def sqrt_less_iff less_sqrt_iff
        sqrt_eq_iff)

text \<open>
  C10. \<^verbatim>\<open>checkCollision\<close> is commutative: \<^verbatim>\<open>checkCollision(a, b)\<close> and
  \<^verbatim>\<open>checkCollision(b, a)\<close> agree for every pair of entities.
\<close>

theorem checkCollision_commute: "checkCollision a b = checkCollision b a"
  by (simp add: checkCollision_def getDistance_def power2_commute add.commute)

subsection \<open>Facing\<close>

lemma atan2_scale: "0 < k \<Longrightarrow> atan2 (k * y) (k * x) = atan2 y x"
  by (simp add: atan2_def zero_less_mult_iff mult_less_0_iff zero_le_mult_iff)

lemma facing_east: "getFacingFromVelocity 1 0 f = 6"
  by (simp add: getFacingFromVelocity_def atan2_def js_rem_def js_trunc_def js_rem_int_def)

lemma facing_east_10: "getFacingFromVelocity 10 0 f = 6"
  by (simp add: getFacingFromVelocity_def atan2_def js_rem_def js_trunc_def js_rem_int_def)

text \<open>
  C9, as the code has it. \<^verbatim>\<open>getFacingFromVelocity(0, 0, prevFacing)\<close> is \<^verbatim>\<open>prevFacing\<close>, and
  so is the result for every velocity whose two components are below the threshold
  \<open>0.1\<close> in absolute value. For a vector above the threshold and a positive factor \<open>k\<close>,
  scaling by \<open>k\<close> leaves the facing unchanged provided the scaled vector is above the
  threshold too, which every \<open>k \<ge> 1\<close> ensures; \<open>(10, 0)\<close> and \<open>(1, 0)\<close> yield the same
  facing. (A factor that takes the vector below the threshold yields the previous
  facing instead.)
\<close>

theorem getFacingFromVelocity_scale:
  "getFacingFromVelocity 0 0 f = f
   \<and> (\<bar>vx\<bar> < 0.1 \<and> \<bar>vy\<bar> < 0.1 \<longrightarrow> getFacingFromVelocity vx vy f = f)
   \<and> (0 < k \<and> \<not> (\<bar>vx\<bar> < 0.1 \<and> \<bar>vy\<bar> < 0.1) \<and> \<not> (\<bar>k * vx\<bar> < 0.1 \<and> \<bar>k * vy\<bar> < 0.1)
        \<longrightarrow> getFacingFromVelocity (k * vx) (k * vy) f = getFacingFromVelocity vx vy f)
   \<and> (1 \<le> k \<and> \<not> (\<bar>vx\<bar> < 0.1 \<and> \<bar>vy\<bar> < 0.1)
        \<longrightarrow> getFacingFromVelocity (k * vx) (k * vy) f = getFacingFromVelocity vx vy f)
   \<and> getFacingFromVelocity 10 0 f = getFacingFromVelocity 1 0 f"
proof -
  have idle: "getFacingFromVelocity 0 0 f = f"
    by (simp add: getFacingFromVelocity_def)
  have small: "\<bar>vx\<bar> < 0.1 \<and> \<bar>vy\<bar> < 0.1 \<longrightarrow> getFacingFromVelocity vx vy f = f"
    by (simp add: getFacingFromVelocity_def)
  have scale: "getFacingFromVelocity (k * vx) (k * vy) f = getFacingFromVelocity vx vy f"
    if "0 < k" "\<not> (\<bar>vx\<bar> < 0.1 \<and> \<bar>vy\<bar> < 0.1)" "\<not> (\<bar>k * vx\<bar> < 0.1 \<and> \<bar>k * vy\<bar> < 0.1)"
    using that by (auto simp add: getFacingFromVelocity_def atan2_scale)
  have big: "\<not> (\<bar>k * vx\<bar> < 0.1 \<and> \<bar>k * vy\<bar> < 0.1)"
    if k: "1 \<le> k" and v: "\<not> (\<bar>vx\<bar> < 0.1 \<and> \<bar>vy\<bar> < 0.1)"
  proof -
    have "\<bar>vx\<bar> \<le> \<bar>k * vx\<bar>" "\<bar>vy\<bar> \<le> \<bar>k * vy\<bar>"
      using k by (simp_all add: abs_mult mult_le_cancel_right1)
    with v show ?thesis by linarith
  qed
  have ten: "getFacingFromVelocity 10 0 f = getFacingFromVelocity 1 0 f"
    by (simp add: facing_east facing_east_10)
  have scale1: "getFacingFromVelocity (k * vx) (k * vy) f = getFacingFromVelocity vx vy f"
    if "1 \<le> k" "\<not> (\<bar>vx\<bar> < 0.1 \<and> \<bar>vy\<bar> < 0.1)"
    using that scale big by simp
  show ?thesis
    using idle small ten scale scale1 by blast
qed

theorem getFacingFromVelocity_scale_witness:
  "getFacingFromVelocity (0.05 * 0.1) (0.05 * (-0.05)) 3 = 3
   \<and> getFacingFromVelocity (2 * 3) (2 * 4) 5 = getFacingFromVelocity 3 4 5"
  using getFacingFromVelocity_scale [of 3 "0.05 * 0.1" "0.05 * (-0.05)" 1]
    getFacingFromVelocity_scale [of 5 3 4 2]
  by simp

text \<open>
  C9 as stated fails: the vector \<open>(1, 0)\<close> is above the threshold and faces east, while
  scaled by the positive factor \<open>0.05\<close> it is below the threshold and keeps the previous
  facing.
\<close>

theorem getFacingFromVelocity_scale_counterexample:
  "\<not> (\<bar>1 :: real\<bar> < 0.1 \<and> \<bar>0 :: real\<bar> < 0.1) \<and> (0 :: real) < 0.05
   \<and> getFacingFromVelocity (0.05 * 1) (0.05 * 0) 0 \<noteq> getFacingFromVelocity 1 0 0"
  by (simp add: facing_east) (simp add: getFacingFromVelocity_def)

subsection \<open>Item pickup\<close>

text \<open>
  The updater of \<^verbatim>\<open>handleItemPickup\<close>, applied on its own to a state: HEALTH adds 2 to
  \<^verbatim>\<open>maxHealth\<close> and sets \<^verbatim>\<open>health\<close> to the new \<^verbatim>\<open>maxHealth\<close>; DAMAGE adds 1.5 to
  \<^verbatim>\<open>damage\<close>; SPEED adds 0.5 to \<^verbatim>\<open>speed\<close>; TRIPLE_SHOT and PIERCING append their modifier;
  BIG_TEARS adds 2 to \<^verbatim>\<open>damage\<close> and appends its modifier; no other field changes. What
  a pickup does to the player within the step that calls it is the subject of the last
  subsection.
\<close>

lemma handleItemPickup_updater:
  "handleItemPickup item s =
     s\<lparr>gameState := ITEM_PICKUP_ANIMATION,
       player :=
         (case itemType item of
            HEALTH \<Rightarrow> (player s)\<lparr>maxHealth := maxHealth (player s) + 2,
                                  health := maxHealth (player s) + 2\<rparr>
          | DAMAGE \<Rightarrow> (player s)\<lparr>damage := damage (player s) + 1.5\<rparr>
          | SPEED \<Rightarrow> (player s)\<lparr>speed := speed (player s) + 0.5\<rparr>
          | TRIPLE_SHOT \<Rightarrow> (player s)\<lparr>modifiers := modifiers (player s) @ [''TRIPLE_SHOT'']\<rparr>
          | PIERCING \<Rightarrow> (player s)\<lparr>modifiers := modifiers (player s) @ [''PIERCING'']\<rparr>
          | BIG_TEARS \<Rightarrow> (player s)\<lparr>damage := damage (player s) + 2,
                                     modifiers := modifiers (player s) @ [''BIG_TEARS'']\<rparr>)\<rparr>"
  by (cases "itemType item") (simp_all add: handleItemPickup_def pickupPlayer_def Let_def)

subsection \<open>Dungeon generator: doors\<close>

lemma randomIndex_less: "0 < n \<Longrightarrow> randomIndex r n < n"
proof -
  assume n: "0 < n"
  have r: "0 \<le> draw_val r" "draw_val r < 1"
    using draw_val [of r] by auto
  have "draw_val r * real n < 1 * real n"
    using r n by (intro mult_strict_right_mono) auto
  then have "\<lfloor>draw_val r * real n\<rfloor> < int n"
    by (simp add: floor_less_iff)
  moreover have "0 \<le> \<lfloor>draw_val r * real n\<rfloor>"
    using r by simp
  ultimately show ?thesis
    by (simp add: randomIndex_def nat_less_iff)
qed

lemma find_exists:
  "(\<exists>y. find P xs = Some y) \<longleftrightarrow> (\<exists>x \<in> set xs. P x)"
  "find P xs = None \<longleftrightarrow> \<not> (\<exists>x \<in> set xs. P x)"
  by (induction xs) simp_all

lemma hasDoor_linkRoom:
  assumes "doors r = Map.empty"
  shows "hasDoor (linkRoom rs r) d \<longleftrightarrow>
      (\<exists>n \<in> set rs. gridX n = gridX r + fst (offset d) \<and> gridY n = gridY r + snd (offset d))"
  using assms
  by (cases d) (simp_all add: hasDoor_def linkRoom_def Let_def find_exists)

lemma grid_linkRoom: "gridX (linkRoom rs r) = gridX r" "gridY (linkRoom rs r) = gridY r"
  by (simp_all add: linkRoom_def Let_def)

lemma doors_buildRoom: "doors (buildRoom rnd b i pos) = Map.empty"
  by (simp add: buildRoom_def Let_def)

lemma hasDoor_linkDoors:
  assumes "\<forall>r \<in> set rs. doors r = Map.empty" and "r \<in> set (linkDoors rs)"
  shows "hasDoor r d \<longleftrightarrow>
      (\<exists>n \<in> set (linkDoors rs).
          gridX n = gridX r + fst (offset d) \<and> gridY n = gridY r + snd (offset d))"
proof -
  from assms(2) obtain r0 where r0: "r0 \<in> set rs" "r = linkRoom rs r0"
    by (auto simp add: linkDoors_def)
  have "hasDoor r d \<longleftrightarrow>
      (\<exists>n \<in> set rs. gridX n = gridX r0 + fst (offset d) \<and> gridY n = gridY r0 + snd (offset d))"
    using r0 assms(1) by (simp add: hasDoor_linkRoom)
  also have "\<dots> \<longleftrightarrow>
      (\<exists>n \<in> set (linkDoors rs).
          gridX n = gridX r + fst (offset d) \<and> gridY n = gridY r + snd (offset d))"
    using r0 by (auto simp add: linkDoors_def grid_linkRoom)
  finally show ?thesis .
qed

lemma offset_opposite: "offset (opposite d) = (- fst (offset d), - snd (offset d))"
  by (cases d) simp_all

text \<open>
  C8. In every dungeon \<^verbatim>\<open>generateDungeon\<close> returns, a room has a door in a direction
  exactly when the dungeon has a room at the grid cell adjacent in that direction; so
  doors are symmetric: when room \<open>r\<close> has a door towards the adjacent room \<open>b\<close>, room \<open>b\<close>
  has the door in the opposite direction, back towards \<open>r\<close>.
\<close>

theorem generateDungeon_doors:
  assumes "generateDungeon targetCount rnd = Some rs" and "r \<in> set rs"
  shows "(hasDoor r d \<longleftrightarrow>
            (\<exists>n \<in> set rs. gridX n = gridX r + fst (offset d)
                \<and> gridY n = gridY r + snd (offset d)))
       \<and> (\<forall>b \<in> set rs. hasDoor r d \<and> gridX b = gridX r + fst (offset d)
              \<and> gridY b = gridY r + snd (offset d) \<longrightarrow> hasDoor b (opposite d))"
proof -
  from assms(1) obtain rs0
    where rs: "rs = linkDoors rs0" and e: "\<forall>r \<in> set rs0. doors r = Map.empty"
    by (auto simp add: generateDungeon_def Let_def doors_buildRoom split: option.splits)
  have iff: "hasDoor r d \<longleftrightarrow>
          (\<exists>n \<in> set rs. gridX n = gridX r + fst (offset d)
              \<and> gridY n = gridY r + snd (offset d))"
    if "r \<in> set rs" for r d
    using e that unfolding rs by (rule hasDoor_linkDoors)
  have "hasDoor b (opposite d)"
    if "b \<in> set rs" "gridX b = gridX r + fst (offset d)" "gridY b = gridY r + snd (offset d)"
    for b
  proof -
    have "gridX r = gridX b + fst (offset (opposite d))
        \<and> gridY r = gridY b + snd (offset (opposite d))"
      using that by (simp add: offset_opposite)
    with assms(2) iff [OF that(1), of "opposite d"] show ?thesis
      by blast
  qed
  with iff [OF assms(2)] show ?thesis
    by blast
qed

lemma grow_example: "grow 2 [(draw_of 0, dirs)] [(0, 0)] [(0, 0)] = Some [(0, 0), (0, -1)]"
  by (simp add: grow.simps randomIndex_def draw_of.rep_eq dirs_def)

lemma generateDungeon_example:
  "generateDungeon 2 exampleRandom =
     Some [\<lparr>id_r = (0, 0), gridX = 0, gridY = 0, cleared = True, enemies = [], items = [],
            doors = [UP \<mapsto> True], isBossRoom = False, isItemRoom = False\<rparr>,
           \<lparr>id_r = (0, -1), gridX = 0, gridY = -1, cleared = False,
            enemies = [makeBoss (0, -1)], items = [],
            doors = [DOWN \<mapsto> True], isBossRoom = True, isItemRoom = False\<rparr>]"
  by (simp add: generateDungeon_def exampleRandom_def grow_example buildRoom_def
        linkDoors_def linkRoom_def Let_def)

theorem generateDungeon_doors_witness:
  "(\<exists>rs. generateDungeon 2 exampleRandom = Some rs \<and> length rs = 2
      \<and> hasDoor (rs ! 0) UP \<and> hasDoor (rs ! 1) DOWN \<and> \<not> hasDoor (rs ! 0) LEFT)"
proof -
  let ?start = "\<lparr>id_r = (0, 0), gridX = 0, gridY = 0, cleared = True, enemies = [],
      items = [], doors = [UP \<mapsto> True], isBossRoom = False, isItemRoom = False\<rparr>"
  let ?boss = "\<lparr>id_r = (0, -1), gridX = 0, gridY = -1, cleared = False,
      enemies = [makeBoss (0, -1)], items = [],
      doors = [DOWN \<mapsto> True], isBossRoom = True, isItemRoom = False\<rparr>"
  have g: "generateDungeon 2 exampleRandom = Some [?start, ?boss]"
    by (rule generateDungeon_example)
  have up: "hasDoor ?start UP" and left: "\<not> hasDoor ?start LEFT"
    using generateDungeon_doors [OF g, of ?start UP]
      generateDungeon_doors [OF g, of ?start LEFT]
    by simp_all
  have "hasDoor ?boss DOWN"
    using generateDungeon_doors [OF g, of ?start UP] up by simp
  with g up left show ?thesis
    by simp
qed

subsection \<open>The simulation step: loops\<close>

lemma length_hitProjectiles: "length (fst (hitProjectiles e vx vy ps st)) = length ps"
  by (induction ps arbitrary: st) (simp_all add: split_def Let_def)

lemma length_enemyStep:
  "length (accProjectiles acc)
     \<le> length (accProjectiles (fst (enemyStep inp pl room nx ny j acc e)))"
  by (simp add: enemyStep_def Let_def split_def length_hitProjectiles)

lemma length_enemiesLoop:
  "length (accProjectiles acc)
     \<le> length (accProjectiles (fst (enemiesLoop inp pl room nx ny j acc es)))"
proof (induction es arbitrary: j acc)
  case Nil
  show ?case by simp
next
  case (Cons e es)
  have "length (accProjectiles acc)
      \<le> length (accProjectiles (fst (enemyStep inp pl room nx ny j acc e)))"
    by (rule length_enemyStep)
  also have "\<dots> \<le> length (accProjectiles (fst (enemiesLoop inp pl room nx ny (Suc j)
      (fst (enemyStep inp pl room nx ny j acc e)) es)))"
    by (rule Cons.IH)
  finally show ?case
    by (simp add: split_def Let_def)
qed

lemma enemiesLoop_inactive:
  "list_all (\<lambda>e. \<not> isActive e) es \<Longrightarrow> enemiesLoop inp pl room nx ny j acc es = (acc, es)"
  by (induction es arbitrary: j) (simp_all add: enemyStep_def)

lemma mutatedInPlace_same: "map (\<lambda>p. mutatedInPlace (fst p) (snd p)) (zip es es) = es"
  by (induction es) (simp_all add: mutatedInPlace_def)

lemma player_fold_handleItemPickup:
  "player (fold handleItemPickup its s) = fold pickupPlayer its (player s)"
  by (induction its arbitrary: s) (simp_all add: handleItemPickup_def)

subsection \<open>The simulation step: the example at the wall\<close>

lemma moveDirection_quiet: "moveDirection quietInput = (0, 0)"
  by (simp add: moveDirection_def rawMove_def quietInput_def)

lemma tentativePosition_quiet: "tentativePosition createPlayer r quietInput = (400, 300)"
  by (simp add: tentativePosition_def moveDirection_quiet createPlayer_def constants_defs
        Let_def)

lemma shoot_quiet: "shoot p quietInput 900 nx ny = ([], 900)"
  by (simp add: shoot_def quietInput_def Let_def)

lemma enemyStep_wall:
  "enemyStep quietInput createPlayer wallRoom 400 300 0
     \<lparr>accProjectiles = [tear], accPlayerHit = False, accSpawned = [], accVictory = False\<rparr>
     wallEnemy
   = (\<lparr>accProjectiles = [tear\<lparr>isActive := False\<rparr>], accPlayerHit = False,
       accSpawned = [], accVictory = False\<rparr>,
      wallEnemy\<lparr>attackCooldown := Some (-16), health := 6.5, isActive := True,
         position := \<lparr>vec_x = 42.5, vec_y = 300\<rparr>, facing := Some 6\<rparr>)"
  by (simp add: enemyStep_def enemyAI_def projectileHit_def wallEnemy_def tear_def
        wallRoom_def quietInput_def createPlayer_def checkCollision_def getDistance_def
        constants_defs Let_def sqrt_122500 facingFromVelocity_def getFacingFromVelocity_def
        atan2_def js_rem_def js_trunc_def js_rem_int_def)

lemma wallRoom_fields:
  "enemies wallRoom = [wallEnemy]" "items wallRoom = []" "cleared wallRoom = False"
  by (simp_all add: wallRoom_def)

lemma roomSwitch_wall: "roomSwitch wallRoom 400 300 = (False, 0, 0, 400, 300)"
  by (simp add: roomSwitch_def wallRoom_def hasDoor_def constants_defs)

text \<open>
  C1 fails on the code. The step clamps an enemy's position to the room bounds before the
  projectile loop and applies the knockback of a hit after it, without clamping again. In
  the Playing state, a basic enemy at \<open>x = 50\<close> that moves towards the player at the
  room's centre and is hit by a tear is written back at \<open>x = 42.5\<close>, outside
  \<open>[50, CANVAS_WIDTH - 50]\<close>.
\<close>

theorem update_knockback_leaves_bounds:
  "gameState wallState = PLAYING
   \<and> position (enemies (rooms wallState ! 0) ! 0) = \<lparr>vec_x = 50, vec_y = 300\<rparr>
   \<and> position (enemies (rooms (update quietInput wallState) ! 0) ! 0)
       = \<lparr>vec_x = 42.5, vec_y = 300\<rparr>
   \<and> vec_x (position (enemies (rooms (update quietInput wallState) ! 0) ! 0)) < 50"
proof -
  have "position (enemies (rooms (update quietInput wallState) ! 0) ! 0)
      = \<lparr>vec_x = 42.5, vec_y = 300\<rparr>"
    by (simp add: update_def wallState_def moveDirection_quiet tentativePosition_quiet
          shoot_quiet enemyStep_wall roomSwitch_wall wallRoom_fields Let_def
          advanceProjectiles_def)
  then show ?thesis
    by (simp add: wallState_def wallRoom_def wallEnemy_def)
qed

subsection \<open>The simulation step: room clearing\<close>

lemma update_rooms_length: "length (rooms (update inp s)) = length (rooms s)"
  by (simp add: update_def Let_def split_def split: option.splits)

lemma update_cleared_mono:
  assumes "i < length (rooms s)" and "cleared (rooms s ! i)"
  shows "cleared (rooms (update inp s) ! i)"
  using assms
  by (simp add: update_def Let_def split_def nth_list_update split: option.splits)

lemma update_room_identity:
  assumes "i < length (rooms s)"
  shows "id_r (rooms (update inp s) ! i) = id_r (rooms s ! i)"
  using assms
  by (simp add: update_def Let_def split_def nth_list_update split: option.splits)

lemma handle_rooms:
  "length (rooms (handle ev s)) = length (rooms s)"
  "i < length (rooms s) \<Longrightarrow> cleared (rooms s ! i) \<Longrightarrow> cleared (rooms (handle ev s) ! i)"
  "i < length (rooms s) \<Longrightarrow> id_r (rooms (handle ev s) ! i) = id_r (rooms s ! i)"
  by (cases ev; simp add: update_rooms_length update_cleared_mono update_room_identity)+

text \<open>
  C3. Once the \<^verbatim>\<open>cleared\<close> flag of a room is true, no sequence of simulation steps sets
  it back to false: after any sequence of frames of one run (and of ends of the pickup
  animation between them) the room list has the same length, the room at the same index
  is the same room, and its flag is still true.
\<close>

theorem cleared_monotone:
  assumes "i < length (rooms s)" and "cleared (rooms s ! i)"
  shows "length (rooms (run evs s)) = length (rooms s)
       \<and> id_r (rooms (run evs s) ! i) = id_r (rooms s ! i)
       \<and> cleared (rooms (run evs s) ! i)"
  using assms
proof (induction evs arbitrary: s)
  case Nil
  then show ?case by simp
next
  case (Cons ev evs)
  have l: "i < length (rooms (handle ev s))"
    using Cons.prems by (simp add: handle_rooms)
  have c: "cleared (rooms (handle ev s) ! i)"
    using Cons.prems by (rule handle_rooms)
  from Cons.IH [OF l c] handle_rooms(3) [OF Cons.prems(1), of ev]
  show ?case
    by (simp add: handle_rooms)
qed

theorem cleared_monotone_witness:
  "cleared (rooms clearedState ! 0)
   \<and> cleared (rooms (run [Frame quietInput, Frame eastInput, PickupAnimationEnds,
                           Frame upInput] clearedState) ! 0)"
proof -
  have i: "0 < length (rooms clearedState)" and c: "cleared (rooms clearedState ! 0)"
    by (simp_all add: clearedState_def)
  from cleared_monotone
    [OF i c, of "[Frame quietInput, Frame eastInput, PickupAnimationEnds, Frame upInput]"] c
  show ?thesis
    by simp
qed

subsection \<open>The simulation step: player movement\<close>

lemma moveDirection_east: "rawMove inp = (1, 0) \<Longrightarrow> moveDirection inp = (1, 0)"
  by (simp add: moveDirection_def)

lemma tentativePosition_centre:
  assumes "position p = \<lparr>vec_x = CANVAS_WIDTH / 2, vec_y = CANVAS_HEIGHT / 2\<rparr>"
    and "speed p = 3.5" and "size_e p \<le> 500" and "rawMove inp = (1, 0)"
  shows "tentativePosition p r inp = (vec_x (position p) + 3.5, vec_y (position p))"
  using assms
  by (simp add: tentativePosition_def moveDirection_east constants_defs Let_def)

lemma roomSwitch_inside:
  assumes "20 \<le> ny" and "ny \<le> CANVAS_HEIGHT - 20" and "20 \<le> nx" and "nx \<le> CANVAS_WIDTH - 20"
  shows "roomSwitch r nx ny = (False, gridX r, gridY r, nx, ny)"
  using assms by (simp add: roomSwitch_def)

lemma facingFromVelocity_east: "facingFromVelocity 1 0 f = Some 6"
  by (cases f) (simp_all add: facingFromVelocity_def facing_east)

lemma update_player_normal:
  assumes "gameState s = PLAYING" and "currentRoomIndex s < length (rooms s)"
    and "tentativePosition (player s) (rooms s ! currentRoomIndex s) inp = (nx, ny)"
    and "roomSwitch (rooms s ! currentRoomIndex s) nx ny = (False, gx, gy, sx, sy)"
    and "moveDirection inp = (dx, dy)"
  shows "position (player (update inp s)) = \<lparr>vec_x = nx, vec_y = ny\<rparr>
       \<and> facing (player (update inp s)) = facingFromVelocity dx dy (facing (player s))"
  using assms by (simp add: update_def Let_def split_def)

text \<open>
  C7. A player at the room's centre with speed 3.5 and combined move input \<open>(1, 0)\<close> (the
  joystick vector plus the WASD keys, before normalisation) is, after one simulation
  step with any \<^verbatim>\<open>dt\<close> and any other input, at the old \<open>x\<close> plus 3.5 and the old \<open>y\<close>, and
  faces east, which is index 6. The player's size must leave the centre inside the
  walls (\<open>size \<le> 500\<close>; \<^verbatim>\<open>createPlayer\<close> sets 30 and nothing changes it).
\<close>

theorem update_moves_east:
  assumes "gameState s = PLAYING" and "currentRoomIndex s < length (rooms s)"
    and "position (player s) = \<lparr>vec_x = CANVAS_WIDTH / 2, vec_y = CANVAS_HEIGHT / 2\<rparr>"
    and "speed (player s) = 3.5" and "size_e (player s) \<le> 500"
    and "rawMove inp = (1, 0)"
  shows "position (player (update inp s)) =
           \<lparr>vec_x = vec_x (position (player s)) + 3.5, vec_y = vec_y (position (player s))\<rparr>
       \<and> facing (player (update inp s)) = Some 6
       \<and> getFacingFromVelocity 1 0 0 = 6"
proof -
  let ?r = "rooms s ! currentRoomIndex s"
  let ?nx = "vec_x (position (player s)) + 3.5" and ?ny = "vec_y (position (player s))"
  have tp: "tentativePosition (player s) ?r inp = (?nx, ?ny)"
    by (rule tentativePosition_centre [OF assms(3-6)])
  have rs: "roomSwitch ?r ?nx ?ny = (False, gridX ?r, gridY ?r, ?nx, ?ny)"
    by (rule roomSwitch_inside) (simp_all add: assms(3) constants_defs)
  from update_player_normal [OF assms(1,2) tp rs moveDirection_east [OF assms(6)]]
  show ?thesis
    by (simp add: facingFromVelocity_east facing_east)
qed

theorem update_moves_east_witness:
  "position (player wallState) = \<lparr>vec_x = 400, vec_y = 300\<rparr>
   \<and> position (player (update eastInput wallState)) = \<lparr>vec_x = 403.5, vec_y = 300\<rparr>
   \<and> facing (player (update eastInput wallState)) = Some 6"
proof -
  have "rawMove eastInput = (1, 0)"
    by (simp add: rawMove_def eastInput_def quietInput_def)
  from update_moves_east [of wallState eastInput, OF _ _ _ _ _ this] show ?thesis
    by (simp add: wallState_def createPlayer_def constants_defs)
qed

subsection \<open>The simulation step: projectile hits\<close>

lemma struck_neq:
  assumes "struck e p p'"
  shows "p' \<noteq> p"
proof
  assume eq: "p' = p"
  show False
  proof (cases "piercing p")
    case True
    with assms have "hitIds p' = hitIds p @ [id_e e]"
      by (simp add: struck_def)
    with eq show False by simp
  next
    case False
    with assms have "isActive p" and "\<not> isActive p'"
      by (simp_all add: struck_def)
    with eq show False by simp
  qed
qed

lemma projectileHit_hit:
  assumes "isActive p" "owner p = OWNER_PLAYER" "\<not> (piercing p \<and> id_e e \<in> set (hitIds p))"
    "checkCollision p (e\<lparr>position := \<lparr>vec_x = eX, vec_y = eY\<rparr>\<rparr>)"
  shows "fst (projectileHit e vx vy p (h, eX, eY))
           = (if piercing p then p\<lparr>hitIds := hitIds p @ [id_e e]\<rparr> else p\<lparr>isActive := False\<rparr>)"
    and "fst (snd (projectileHit e vx vy p (h, eX, eY))) = h - damage p"
  using assms by (auto simp add: projectileHit_def Let_def split_def)

lemma projectileHit_miss:
  assumes "\<not> (isActive p \<and> owner p = OWNER_PLAYER \<and> \<not> (piercing p \<and> id_e e \<in> set (hitIds p))
    \<and> checkCollision p (e\<lparr>position := \<lparr>vec_x = eX, vec_y = eY\<rparr>\<rparr>))"
  shows "projectileHit e vx vy p (h, eX, eY) = (p, h, eX, eY)"
  using assms by (auto simp add: projectileHit_def Let_def split_def)

lemma projectileHit_cases:
  "(fst (projectileHit e vx vy p st) = p \<or> struck e p (fst (projectileHit e vx vy p st)))
   \<and> fst (snd (projectileHit e vx vy p st))
       = fst st - (if fst (projectileHit e vx vy p st) \<noteq> p then damage p else 0)"
proof -
  obtain h eX eY where st: "st = (h, eX, eY)"
    by (cases st) auto
  show ?thesis
  proof (cases "isActive p \<and> owner p = OWNER_PLAYER
      \<and> \<not> (piercing p \<and> id_e e \<in> set (hitIds p))
      \<and> checkCollision p (e\<lparr>position := \<lparr>vec_x = eX, vec_y = eY\<rparr>\<rparr>)")
    case True
    then have s: "struck e p (fst (projectileHit e vx vy p st))"
      unfolding st by (simp add: projectileHit_hit struck_def)
    have "fst (snd (projectileHit e vx vy p st)) = fst st - damage p"
      unfolding st using True by (simp add: projectileHit_hit)
    with s struck_neq [OF s] show ?thesis
      by simp
  next
    case False
    then have "projectileHit e vx vy p st = (p, st)"
      unfolding st by (rule projectileHit_miss)
    then show ?thesis by simp
  qed
qed


lemma hitProjectiles_cases:
  "(\<forall>i < length ps. fst (hitProjectiles e vx vy ps st) ! i = ps ! i
        \<or> struck e (ps ! i) (fst (hitProjectiles e vx vy ps st) ! i))
   \<and> fst (snd (hitProjectiles e vx vy ps st))
       = fst st - (\<Sum>i < length ps.
           if fst (hitProjectiles e vx vy ps st) ! i \<noteq> ps ! i then damage (ps ! i) else 0)"
proof (induction ps arbitrary: st)
  case Nil
  show ?case by simp
next
  case (Cons p ps)
  let ?p' = "fst (projectileHit e vx vy p st)" and ?st' = "snd (projectileHit e vx vy p st)"
  let ?rest = "fst (hitProjectiles e vx vy ps ?st')"
  have r: "hitProjectiles e vx vy (p # ps) st
      = (?p' # ?rest, snd (hitProjectiles e vx vy ps ?st'))"
    by (simp add: split_def Let_def)
  note h = projectileHit_cases [of e vx vy p st]
  note ih = Cons.IH [of ?st']
  have a: "\<forall>i < length (p # ps). (?p' # ?rest) ! i = (p # ps) ! i
        \<or> struck e ((p # ps) ! i) ((?p' # ?rest) ! i)"
    using h ih by (simp add: All_less_Suc2)
  have "fst (snd (hitProjectiles e vx vy ps ?st'))
      = (fst st - (if ?p' \<noteq> p then damage p else 0))
         - (\<Sum>i < length ps. if ?rest ! i \<noteq> ps ! i then damage (ps ! i) else 0)"
    using h ih by simp
  also have "\<dots> = fst st - (\<Sum>i < length (p # ps).
      if (?p' # ?rest) ! i \<noteq> (p # ps) ! i then damage ((p # ps) ! i) else 0)"
    by (simp add: sum.lessThan_Suc_shift del: sum.lessThan_Suc cong: if_cong)
  finally show ?case
    using a unfolding r by simp
qed


lemma enemyAI_shots: "\<forall>s \<in> set (snd (snd (enemyAI inp j nx ny e cd))). owner s = OWNER_ENEMY"
  by (simp add: enemyAI_def enemyShot_def Let_def)

lemma enemyStep_inactive: "\<not> isActive e \<Longrightarrow> enemyStep inp pl room nx ny j acc e = (acc, e)"
  by (simp add: enemyStep_def)

lemma enemyStep_active:
  assumes "isActive e"
  shows "\<exists>vx vy shots st. (\<forall>s \<in> set shots. owner s = OWNER_ENEMY) \<and> fst st = health e
      \<and> accProjectiles (fst (enemyStep inp pl room nx ny j acc e))
          = fst (hitProjectiles e vx vy (accProjectiles acc @ shots) st)
      \<and> health (snd (enemyStep inp pl room nx ny j acc e))
          = fst (snd (hitProjectiles e vx vy (accProjectiles acc @ shots) st))"
proof -
  let ?ai = "enemyAI inp j nx ny e ((case attackCooldown e of None \<Rightarrow> 0 | Some c \<Rightarrow> c) - dt inp)"
  let ?eX0 = "vec_x (position e) + fst (fst ?ai)"
  let ?eX1 = "if ?eX0 < 50 then 50 else ?eX0"
  let ?eX = "if ?eX1 > CANVAS_WIDTH - 50 then CANVAS_WIDTH - 50 else ?eX1"
  let ?eY0 = "vec_y (position e) + snd (fst ?ai)"
  let ?eY1 = "if ?eY0 < 50 then 50 else ?eY0"
  let ?eY = "if ?eY1 > CANVAS_HEIGHT - 50 then CANVAS_HEIGHT - 50 else ?eY1"
  let ?hp = "hitProjectiles e (fst (fst ?ai)) (snd (fst ?ai))
      (accProjectiles acc @ snd (snd ?ai)) (health e, ?eX, ?eY)"
  have "accProjectiles (fst (enemyStep inp pl room nx ny j acc e)) = fst ?hp"
    and "health (snd (enemyStep inp pl room nx ny j acc e)) = fst (snd ?hp)"
    using assms by (simp_all add: enemyStep_def Let_def split_def)
  with enemyAI_shots [of inp j nx ny e] show ?thesis
    by (metis fst_conv)
qed

lemma enemyStep_cases:
  "(\<forall>i < length (accProjectiles acc).
        accProjectiles (fst (enemyStep inp pl room nx ny j acc e)) ! i = accProjectiles acc ! i
        \<or> (isActive e \<and> struck e (accProjectiles acc ! i)
              (accProjectiles (fst (enemyStep inp pl room nx ny j acc e)) ! i)))
   \<and> health (snd (enemyStep inp pl room nx ny j acc e))
       = health e - (\<Sum>i < length (accProjectiles acc).
           if accProjectiles (fst (enemyStep inp pl room nx ny j acc e)) ! i
                \<noteq> accProjectiles acc ! i
           then damage (accProjectiles acc ! i) else 0)"
proof (cases "isActive e")
  case False
  then show ?thesis by (simp add: enemyStep_inactive)
next
  case True
  let ?ps = "accProjectiles acc"
  let ?ps' = "accProjectiles (fst (enemyStep inp pl room nx ny j acc e))"
  from enemyStep_active [OF True, of inp pl room nx ny j acc]
  obtain vx vy shots st where sh: "\<forall>s \<in> set shots. owner s = OWNER_ENEMY"
    and st: "fst st = health e"
    and ps': "?ps' = fst (hitProjectiles e vx vy (?ps @ shots) st)"
    and h: "health (snd (enemyStep inp pl room nx ny j acc e))
          = fst (snd (hitProjectiles e vx vy (?ps @ shots) st))"
    by blast
  note c = hitProjectiles_cases [of "?ps @ shots" e vx vy st, folded ps']
  from c have c1: "?ps' ! i = (?ps @ shots) ! i \<or> struck e ((?ps @ shots) ! i) (?ps' ! i)"
    if "i < length (?ps @ shots)" for i
    using that by blast
  have old: "?ps' ! i = ?ps ! i \<or> struck e (?ps ! i) (?ps' ! i)" if "i < length ?ps" for i
    using c1 [of i] that by (simp add: nth_append)
  have new: "?ps' ! i = (?ps @ shots) ! i"
    if "length ?ps \<le> i" "i < length (?ps @ shots)" for i
  proof -
    have "(?ps @ shots) ! i \<in> set shots"
      using that by (simp add: nth_append)
    with sh have "owner ((?ps @ shots) ! i) = OWNER_ENEMY"
      by blast
    then have "\<not> struck e ((?ps @ shots) ! i) (?ps' ! i)"
      by (simp add: struck_def)
    with c1 [OF that(2)] show ?thesis
      by blast
  qed
  let ?g = "\<lambda>i. if ?ps' ! i \<noteq> (?ps @ shots) ! i then damage ((?ps @ shots) ! i) else 0"
  have "(\<Sum>i < length ?ps. ?g i) = (\<Sum>i < length (?ps @ shots). ?g i)"
    by (rule sum.mono_neutral_left) (auto simp add: new)
  moreover have "(\<Sum>i < length ?ps. ?g i)
      = (\<Sum>i < length ?ps. if ?ps' ! i \<noteq> ?ps ! i then damage (?ps ! i) else 0)"
    by (rule sum.cong) (simp_all add: nth_append)
  ultimately have "health (snd (enemyStep inp pl room nx ny j acc e))
      = health e - (\<Sum>i < length ?ps. if ?ps' ! i \<noteq> ?ps ! i then damage (?ps ! i) else 0)"
    using c h st by simp
  with old True show ?thesis
    by simp
qed


lemma enemiesLoop_append:
  "enemiesLoop inp pl room nx ny j acc (xs @ ys) =
     (fst (enemiesLoop inp pl room nx ny (j + length xs)
             (fst (enemiesLoop inp pl room nx ny j acc xs)) ys),
      snd (enemiesLoop inp pl room nx ny j acc xs)
        @ snd (enemiesLoop inp pl room nx ny (j + length xs)
             (fst (enemiesLoop inp pl room nx ny j acc xs)) ys))"
  by (induction xs arbitrary: j acc) (simp_all add: split_def Let_def)

lemma length_snd_enemiesLoop:
  "length (snd (enemiesLoop inp pl room nx ny j acc es)) = length es"
  by (induction es arbitrary: j acc) (simp_all add: split_def Let_def)

lemma projectilesAfter_0: "projectilesAfter inp pl room nx ny acc es 0 = accProjectiles acc"
  by (simp add: projectilesAfter_def)

lemma projectilesAfter_Suc:
  assumes "k < length es"
  shows "projectilesAfter inp pl room nx ny acc es (Suc k)
    = accProjectiles (fst (enemyStep inp pl room nx ny k
        (fst (enemiesLoop inp pl room nx ny 0 acc (take k es))) (es ! k)))"
  using assms
  by (simp add: projectilesAfter_def take_Suc_conv_app_nth enemiesLoop_append split_def
        Let_def min_def)

lemma enemiesLoop_nth:
  assumes "k < length es"
  shows "snd (enemiesLoop inp pl room nx ny 0 acc es) ! k
    = snd (enemyStep inp pl room nx ny k
        (fst (enemiesLoop inp pl room nx ny 0 acc (take k es))) (es ! k))"
proof -
  have "es = take k es @ es ! k # drop (Suc k) es"
    using assms by (rule id_take_nth_drop)
  then have "snd (enemiesLoop inp pl room nx ny 0 acc es) ! k
      = snd (enemiesLoop inp pl room nx ny 0 acc (take k es @ es ! k # drop (Suc k) es)) ! k"
    by simp
  also have "\<dots> = snd (enemyStep inp pl room nx ny k
        (fst (enemiesLoop inp pl room nx ny 0 acc (take k es))) (es ! k))"
    using assms
    by (simp add: enemiesLoop_append nth_append length_snd_enemiesLoop split_def Let_def
          min_def)
  finally show ?thesis .
qed

lemma later_refl: "later p p"
  by (simp add: later_def)

lemma struck_later: "struck e p p' \<Longrightarrow> later p p'"
  by (auto simp add: struck_def later_def split: if_splits)

lemma later_trans: "later p q \<Longrightarrow> later q r \<Longrightarrow> later p r"
  by (auto simp add: later_def split: if_splits)

lemma projectilesAfter_step:
  assumes "k < length es" and "i < length (projectilesAfter inp pl room nx ny acc es k)"
  shows "i < length (projectilesAfter inp pl room nx ny acc es (Suc k))"
    and "projectilesAfter inp pl room nx ny acc es (Suc k) ! i
           = projectilesAfter inp pl room nx ny acc es k ! i
         \<or> (isActive (es ! k)
             \<and> struck (es ! k) (projectilesAfter inp pl room nx ny acc es k ! i)
                 (projectilesAfter inp pl room nx ny acc es (Suc k) ! i))"
proof -
  let ?acc = "fst (enemiesLoop inp pl room nx ny 0 acc (take k es))"
  have p: "projectilesAfter inp pl room nx ny acc es k = accProjectiles ?acc"
    by (simp add: projectilesAfter_def)
  note s = projectilesAfter_Suc [OF assms(1), of inp pl room nx ny acc]
  show "i < length (projectilesAfter inp pl room nx ny acc es (Suc k))"
    using assms(2) length_enemyStep [of ?acc inp pl room nx ny k "es ! k"]
    unfolding s p by simp
  show "projectilesAfter inp pl room nx ny acc es (Suc k) ! i
           = projectilesAfter inp pl room nx ny acc es k ! i
         \<or> (isActive (es ! k)
             \<and> struck (es ! k) (projectilesAfter inp pl room nx ny acc es k ! i)
                 (projectilesAfter inp pl room nx ny acc es (Suc k) ! i))"
    using assms(2) enemyStep_cases [of ?acc inp pl room nx ny k "es ! k"]
    unfolding s p by blast
qed

lemma projectilesAfter_later:
  assumes "k \<le> m" and "m \<le> length es"
    and "i < length (projectilesAfter inp pl room nx ny acc es k)"
  shows "i < length (projectilesAfter inp pl room nx ny acc es m)
       \<and> later (projectilesAfter inp pl room nx ny acc es k ! i)
           (projectilesAfter inp pl room nx ny acc es m ! i)"
  using assms
proof (induction m rule: dec_induct)
  case base
  then show ?case by (simp add: later_refl)
next
  case (step m)
  then have m: "m < length es"
    and i: "i < length (projectilesAfter inp pl room nx ny acc es m)"
    and l: "later (projectilesAfter inp pl room nx ny acc es k ! i)
           (projectilesAfter inp pl room nx ny acc es m ! i)"
    by simp_all
  from projectilesAfter_step(2) [OF m i]
  have "later (projectilesAfter inp pl room nx ny acc es m ! i)
      (projectilesAfter inp pl room nx ny acc es (Suc m) ! i)"
    by (auto simp add: later_refl struck_later)
  with l projectilesAfter_step(1) [OF m i] show ?case
    by (blast intro: later_trans)
qed


lemma damagedBy_struck:
  assumes "k < length es" and "i < length (accProjectiles acc)"
    and "damagedBy inp pl room nx ny acc es i k"
  shows "isActive (es ! k)"
    and "struck (es ! k) (projectilesAfter inp pl room nx ny acc es k ! i)
           (projectilesAfter inp pl room nx ny acc es (Suc k) ! i)"
    and "piercing (projectilesAfter inp pl room nx ny acc es k ! i)
           = piercing (accProjectiles acc ! i)"
    and "owner (accProjectiles acc ! i) = OWNER_PLAYER"
proof -
  have l: "i < length (projectilesAfter inp pl room nx ny acc es k)
      \<and> later (projectilesAfter inp pl room nx ny acc es 0 ! i)
           (projectilesAfter inp pl room nx ny acc es k ! i)"
    using assms(1,2) by (intro projectilesAfter_later) (simp_all add: projectilesAfter_0)
  from projectilesAfter_step(2) [OF assms(1) conjunct1 [OF l]] assms(3)
  show "isActive (es ! k)"
    and s: "struck (es ! k) (projectilesAfter inp pl room nx ny acc es k ! i)
           (projectilesAfter inp pl room nx ny acc es (Suc k) ! i)"
    by (simp_all add: damagedBy_def)
  from l show "piercing (projectilesAfter inp pl room nx ny acc es k ! i)
           = piercing (accProjectiles acc ! i)"
    by (simp add: later_def projectilesAfter_0)
  from l s show "owner (accProjectiles acc ! i) = OWNER_PLAYER"
    by (simp add: later_def struck_def projectilesAfter_0)
qed

lemma damagedBy_twice:
  assumes "k < k'" and "k' < length es" and "i < length (accProjectiles acc)"
    and "damagedBy inp pl room nx ny acc es i k"
    and "damagedBy inp pl room nx ny acc es i k'"
  shows "piercing (accProjectiles acc ! i) \<and> id_e (es ! k) \<noteq> id_e (es ! k')"
proof -
  let ?P = "projectilesAfter inp pl room nx ny acc es"
  have k: "k < length es"
    using assms(1,2) by simp
  note s = damagedBy_struck [OF k assms(3,4)]
  note s' = damagedBy_struck [OF assms(2,3,5)]
  have ik: "i < length (?P k)"
    using projectilesAfter_later [of 0 k es i inp pl room nx ny acc] k assms(3)
    by (simp add: projectilesAfter_0)
  have l: "later (?P (Suc k) ! i) (?P k' ! i)"
    using projectilesAfter_later [of "Suc k" k' es i inp pl room nx ny acc]
      projectilesAfter_step(1) [OF k ik] assms(1,2)
    by simp
  show ?thesis
  proof (cases "piercing (accProjectiles acc ! i)")
    case True
    with s(2,3) have "id_e (es ! k) \<in> set (hitIds (?P (Suc k) ! i))"
      by (simp add: struck_def)
    with l have "id_e (es ! k) \<in> set (hitIds (?P k' ! i))"
      by (auto simp add: later_def)
    moreover from True s'(2,3) have "id_e (es ! k') \<notin> set (hitIds (?P k' ! i))"
      by (simp add: struck_def)
    ultimately show ?thesis
      using True by auto
  next
    case False
    with s(2,3) have "\<not> isActive (?P (Suc k) ! i)" and "\<not> piercing (?P (Suc k) ! i)"
      by (simp_all add: struck_def)
    with l have "\<not> isActive (?P k' ! i)"
      by (simp add: later_def)
    with s'(2) show ?thesis
      by (simp add: struck_def)
  qed
qed

lemma enemiesLoop_hits:
  fixes inp pl room nx ny acc es
  defines "P \<equiv> projectilesAfter inp pl room nx ny acc es"
    and "hit \<equiv> damagedBy inp pl room nx ny acc es"
  assumes "i < length (accProjectiles acc)" and "k < length es"
  shows "health (snd (enemiesLoop inp pl room nx ny 0 acc es) ! k)
           = health (es ! k) - (\<Sum>j < length (P k). if hit j k then damage (P k ! j) else 0)
       \<and> (hit i k \<longrightarrow> isActive (es ! k) \<and> owner (accProjectiles acc ! i) = OWNER_PLAYER
             \<and> damage (P k ! i) = damage (accProjectiles acc ! i))
       \<and> (piercing (accProjectiles acc ! i) \<and> hit i k
            \<longrightarrow> id_e (es ! k) \<in> set (hitIds (P (length es) ! i))
                \<and> isActive (P (length es) ! i))
       \<and> (piercing (accProjectiles acc ! i) \<and> hit i k \<and> k' < length es \<and> hit i k' \<and> k' \<noteq> k
            \<longrightarrow> id_e (es ! k') \<noteq> id_e (es ! k))
       \<and> (\<not> piercing (accProjectiles acc ! i) \<and> hit i k
            \<longrightarrow> \<not> isActive (P (length es) ! i)
                \<and> (\<forall>k' < length es. hit i k' \<longrightarrow> k' = k))"
proof -
  have l0: "i < length (P k) \<and> later (P 0 ! i) (P k ! i)"
    unfolding P_def using assms(3,4)
    by (intro projectilesAfter_later) (simp_all add: projectilesAfter_0)
  have iS: "i < length (P (Suc k))"
    unfolding P_def using projectilesAfter_step(1) [OF assms(4)] l0 by (simp add: P_def)
  have lS: "later (P (Suc k) ! i) (P (length es) ! i)"
    unfolding P_def using assms(4) iS
    by (intro conjunct2 [OF projectilesAfter_later]) (simp_all add: P_def)
  have health: "health (snd (enemiesLoop inp pl room nx ny 0 acc es) ! k)
           = health (es ! k) - (\<Sum>j < length (P k). if hit j k then damage (P k ! j) else 0)"
  proof -
    let ?acc = "fst (enemiesLoop inp pl room nx ny 0 acc (take k es))"
    have e1: "snd (enemiesLoop inp pl room nx ny 0 acc es) ! k
        = snd (enemyStep inp pl room nx ny k ?acc (es ! k))"
      by (rule enemiesLoop_nth [OF assms(4)])
    have e2: "P k = accProjectiles ?acc"
      by (simp add: P_def projectilesAfter_def)
    have e3: "P (Suc k) = accProjectiles (fst (enemyStep inp pl room nx ny k ?acc (es ! k)))"
      unfolding P_def by (rule projectilesAfter_Suc [OF assms(4)])
    have e4: "hit j k \<longleftrightarrow> P (Suc k) ! j \<noteq> P k ! j" for j
      by (simp add: hit_def damagedBy_def P_def)
    show ?thesis
      unfolding e1 e4 e2 e3 by (rule conjunct2 [OF enemyStep_cases])
  qed
  have basic: "isActive (es ! k) \<and> owner (accProjectiles acc ! i) = OWNER_PLAYER
      \<and> damage (P k ! i) = damage (accProjectiles acc ! i)" if "hit i k"
    using damagedBy_struck(1,4) [OF assms(4,3)] that l0
    by (simp add: hit_def later_def P_def projectilesAfter_0)
  have pierce: "id_e (es ! k) \<in> set (hitIds (P (length es) ! i)) \<and> isActive (P (length es) ! i)"
    if "piercing (accProjectiles acc ! i)" "hit i k"
  proof -
    from damagedBy_struck(2,3) [OF assms(4,3)] that
    have "id_e (es ! k) \<in> set (hitIds (P (Suc k) ! i))" and "isActive (P (Suc k) ! i)"
      and "piercing (P (Suc k) ! i)"
      by (simp_all add: hit_def struck_def P_def)
    with lS show ?thesis
      by (auto simp add: later_def)
  qed
  have twice: "piercing (accProjectiles acc ! i) \<and> id_e (es ! k') \<noteq> id_e (es ! k)"
    if "hit i k" "k' < length es" "hit i k'" "k' \<noteq> k" for k'
  proof (cases "k < k'")
    case True
    from damagedBy_twice [OF True that(2) assms(3)] that(1,3) show ?thesis
      by (auto simp add: hit_def)
  next
    case False
    with that(4) have "k' < k" by simp
    from damagedBy_twice [OF this assms(4,3)] that(1,3) show ?thesis
      by (auto simp add: hit_def)
  qed
  have plain: "\<not> isActive (P (length es) ! i) \<and> (\<forall>k' < length es. hit i k' \<longrightarrow> k' = k)"
    if "\<not> piercing (accProjectiles acc ! i)" "hit i k"
  proof -
    from damagedBy_struck(2,3) [OF assms(4,3)] that
    have "\<not> isActive (P (Suc k) ! i)" and "\<not> piercing (P (Suc k) ! i)"
      by (simp_all add: hit_def struck_def P_def)
    with lS have "\<not> isActive (P (length es) ! i)"
      by (simp add: later_def)
    with twice that show ?thesis
      by blast
  qed
  from health basic pierce twice plain show ?thesis
    by blast
qed


lemma health_mutatedInPlace: "health (mutatedInPlace old new) = health new"
  by (simp add: mutatedInPlace_def)

lemma update_enemies_health:
  assumes "gameState s = PLAYING" and "currentRoomIndex s < length (rooms s)"
    and "k < length (enemies (rooms s ! currentRoomIndex s))"
  shows "health (enemies (rooms (update inp s) ! currentRoomIndex s) ! k)
    = health (snd (enemiesLoop inp (player s) (rooms s ! currentRoomIndex s)
        (fst (tentativePosition (player s) (rooms s ! currentRoomIndex s) inp))
        (snd (tentativePosition (player s) (rooms s ! currentRoomIndex s) inp)) 0
        \<lparr>accProjectiles = projectiles s
           @ fst (shoot (player s) inp (lastShotTime s)
               (fst (tentativePosition (player s) (rooms s ! currentRoomIndex s) inp))
               (snd (tentativePosition (player s) (rooms s ! currentRoomIndex s) inp))),
         accPlayerHit = False, accSpawned = [], accVictory = False\<rparr>
        (enemies (rooms s ! currentRoomIndex s))) ! k)"
  using assms
  by (simp add: update_def Let_def split_def length_snd_enemiesLoop health_mutatedInPlace
        split: option.splits)

lemma enemyStep_pair_0:
  "enemyStep quietInput createPlayer pairRoom 400 300 0 pairAcc wallEnemy
   = (pairAcc\<lparr>accProjectiles := [pierceTear\<lparr>hitIds := [EnemyId (0, 0) 0]\<rparr>,
                                  tear\<lparr>isActive := False\<rparr>]\<rparr>,
      wallEnemy\<lparr>attackCooldown := Some (-16), health := 3, isActive := True,
         position := \<lparr>vec_x = 33.5, vec_y = 300\<rparr>, facing := Some 6\<rparr>)"
  by (simp add: enemyStep_def enemyAI_def projectileHit_def wallEnemy_def tear_def pierceTear_def
        pairRoom_def pairAcc_def
        wallRoom_def quietInput_def createPlayer_def checkCollision_def getDistance_def
        constants_defs Let_def sqrt_122500 sqrt_less_iff facingFromVelocity_def getFacingFromVelocity_def
        atan2_def js_rem_def js_trunc_def js_rem_int_def)

lemma enemyStep_pair_1:
  "enemyStep quietInput createPlayer pairRoom 400 300 (Suc 0)
     (pairAcc\<lparr>accProjectiles := [pierceTear\<lparr>hitIds := [EnemyId (0, 0) 0]\<rparr>,
                                  tear\<lparr>isActive := False\<rparr>]\<rparr>) wallEnemy2
   = (pairAcc\<lparr>accProjectiles := [pierceTear\<lparr>hitIds := [EnemyId (0, 0) 0, EnemyId (0, 0) 1]\<rparr>,
                                  tear\<lparr>isActive := False\<rparr>]\<rparr>,
      wallEnemy2\<lparr>attackCooldown := Some (-16), health := 6.5, isActive := True,
         position := \<lparr>vec_x = 42.5, vec_y = 300\<rparr>, facing := Some 6\<rparr>)"
  by (simp add: enemyStep_def enemyAI_def projectileHit_def wallEnemy_def wallEnemy2_def tear_def pierceTear_def
        pairRoom_def pairAcc_def
        wallRoom_def quietInput_def createPlayer_def checkCollision_def getDistance_def
        constants_defs Let_def sqrt_122500 sqrt_less_iff facingFromVelocity_def getFacingFromVelocity_def
        atan2_def js_rem_def js_trunc_def js_rem_int_def)


lemma pair_after:
  "projectilesAfter quietInput createPlayer pairRoom 400 300 pairAcc [wallEnemy, wallEnemy2] 0
     = [pierceTear, tear]"
  "projectilesAfter quietInput createPlayer pairRoom 400 300 pairAcc [wallEnemy, wallEnemy2] (Suc 0)
     = [pierceTear\<lparr>hitIds := [EnemyId (0, 0) 0]\<rparr>, tear\<lparr>isActive := False\<rparr>]"
  "projectilesAfter quietInput createPlayer pairRoom 400 300 pairAcc [wallEnemy, wallEnemy2]
       (Suc (Suc 0))
     = [pierceTear\<lparr>hitIds := [EnemyId (0, 0) 0, EnemyId (0, 0) 1]\<rparr>, tear\<lparr>isActive := False\<rparr>]"
  by (simp_all add: projectilesAfter_def enemyStep_pair_0 enemyStep_pair_1)
     (simp_all add: pairAcc_def)


text \<open>
  C2. In a simulation step, consider a projectile at index \<open>i\<close> of the step's projectile
  list (the stored projectiles and the shots fired in the step) and the enemies of the
  current room in the order the step processes them; the projectile hits enemy \<open>k\<close>
  when the step changes it while it processes that enemy. Then:
  each enemy's health, as the step leaves it in the room, is its old health minus the
  damage of every projectile that hit it; only active enemies are hit, only by
  projectiles of the player, whose damage the step never changes;
  a piercing projectile that hits enemy \<open>k\<close> has that enemy's id in its ledger when all
  enemies have been processed and is still active, so after hitting A and then B the
  ledger holds both ids, and two different enemies it hits have different ids (it never
  damages the same id twice);
  a projectile that is not piercing is inactive once it has hit, and hits no second
  enemy.
\<close>

theorem update_projectile_hits:
  fixes inp s
  defines "room \<equiv> rooms s ! currentRoomIndex s"
    and "tp \<equiv> tentativePosition (player s) (rooms s ! currentRoomIndex s) inp"
  defines "acc \<equiv> \<lparr>accProjectiles = projectiles s
           @ fst (shoot (player s) inp (lastShotTime s) (fst tp) (snd tp)),
         accPlayerHit = False, accSpawned = [], accVictory = False\<rparr>"
    and "es \<equiv> enemies room"
  defines "P \<equiv> projectilesAfter inp (player s) room (fst tp) (snd tp) acc es"
    and "hit \<equiv> damagedBy inp (player s) room (fst tp) (snd tp) acc es"
  assumes "gameState s = PLAYING" and "currentRoomIndex s < length (rooms s)"
    and "i < length (accProjectiles acc)" and "k < length es"
  shows "health (enemies (rooms (update inp s) ! currentRoomIndex s) ! k)
           = health (es ! k) - (\<Sum>j < length (P k). if hit j k then damage (P k ! j) else 0)
       \<and> (hit i k \<longrightarrow> isActive (es ! k) \<and> owner (accProjectiles acc ! i) = OWNER_PLAYER
             \<and> damage (P k ! i) = damage (accProjectiles acc ! i))
       \<and> (piercing (accProjectiles acc ! i) \<and> hit i k
            \<longrightarrow> id_e (es ! k) \<in> set (hitIds (P (length es) ! i))
                \<and> isActive (P (length es) ! i))
       \<and> (piercing (accProjectiles acc ! i) \<and> hit i k \<and> k' < length es \<and> hit i k' \<and> k' \<noteq> k
            \<longrightarrow> id_e (es ! k') \<noteq> id_e (es ! k))
       \<and> (\<not> piercing (accProjectiles acc ! i) \<and> hit i k
            \<longrightarrow> \<not> isActive (P (length es) ! i)
                \<and> (\<forall>k' < length es. hit i k' \<longrightarrow> k' = k))"
proof -
  have "health (enemies (rooms (update inp s) ! currentRoomIndex s) ! k)
      = health (snd (enemiesLoop inp (player s) room (fst tp) (snd tp) 0 acc es) ! k)"
    using assms(7,8,10) unfolding es_def acc_def tp_def room_def
    by (rule update_enemies_health)
  with enemiesLoop_hits [OF assms(9,10), of inp "player s" room "fst tp" "snd tp" k']
  show ?thesis
    unfolding P_def hit_def by simp
qed

lemmas pair_after_record = pair_after [unfolded pairAcc_def]

lemma pair_hits:
  "damagedBy quietInput createPlayer pairRoom 400 300 pairAcc [wallEnemy, wallEnemy2] 0 0"
  "damagedBy quietInput createPlayer pairRoom 400 300 pairAcc [wallEnemy, wallEnemy2] 0 (Suc 0)"
  "damagedBy quietInput createPlayer pairRoom 400 300 pairAcc [wallEnemy, wallEnemy2] (Suc 0) 0"
  "\<not> damagedBy quietInput createPlayer pairRoom 400 300 pairAcc [wallEnemy, wallEnemy2]
       (Suc 0) (Suc 0)"
  by (simp_all add: damagedBy_def pair_after) (simp_all add: pierceTear_def tear_def)

lemmas pair_hits_record = pair_hits [unfolded pairAcc_def]

lemma pairState_fields:
  "gameState pairState = PLAYING" "currentRoomIndex pairState = 0"
  "rooms pairState = [pairRoom]" "player pairState = createPlayer"
  "projectiles pairState = [pierceTear, tear]" "lastShotTime pairState = 900"
  "enemies pairRoom = [wallEnemy, wallEnemy2]"
  by (simp_all add: pairState_def wallState_def pairRoom_def)

theorem update_projectile_hits_witness:
  "health (enemies (rooms (update quietInput pairState) ! 0) ! 0) = 3
   \<and> damagedBy quietInput createPlayer pairRoom 400 300 pairAcc [wallEnemy, wallEnemy2] 0 0
   \<and> damagedBy quietInput createPlayer pairRoom 400 300 pairAcc [wallEnemy, wallEnemy2] 0 1
   \<and> id_e wallEnemy \<in> set (hitIds
        (projectilesAfter quietInput createPlayer pairRoom 400 300 pairAcc
           [wallEnemy, wallEnemy2] 2 ! 0))
   \<and> id_e wallEnemy2 \<in> set (hitIds
        (projectilesAfter quietInput createPlayer pairRoom 400 300 pairAcc
           [wallEnemy, wallEnemy2] 2 ! 0))
   \<and> isActive (projectilesAfter quietInput createPlayer pairRoom 400 300 pairAcc
           [wallEnemy, wallEnemy2] 2 ! 0)
   \<and> id_e wallEnemy2 \<noteq> id_e wallEnemy
   \<and> damagedBy quietInput createPlayer pairRoom 400 300 pairAcc [wallEnemy, wallEnemy2] 1 0
   \<and> \<not> isActive (projectilesAfter quietInput createPlayer pairRoom 400 300 pairAcc
           [wallEnemy, wallEnemy2] 2 ! 1)"
proof -
  note facts = pairState_fields tentativePosition_quiet shoot_quiet pair_hits_record
  have d: "damage pierceTear = 3.5" "damage tear = 3.5" "health wallEnemy = 10"
    "piercing pierceTear" "\<not> piercing tear"
    by (simp_all add: pierceTear_def tear_def wallEnemy_def)
  have a: "health (enemies (rooms (update quietInput pairState) ! 0) ! 0) = 3
      \<and> id_e wallEnemy \<in> set (hitIds
        (projectilesAfter quietInput createPlayer pairRoom 400 300 pairAcc
           [wallEnemy, wallEnemy2] (Suc (Suc 0)) ! 0))
      \<and> isActive (projectilesAfter quietInput createPlayer pairRoom 400 300 pairAcc
           [wallEnemy, wallEnemy2] (Suc (Suc 0)) ! 0)
      \<and> id_e wallEnemy2 \<noteq> id_e wallEnemy"
    using update_projectile_hits [of pairState 0 quietInput 0 "Suc 0"]
    by (simp add: facts d pair_after_record(1)) (simp add: pairAcc_def)
  have b: "id_e wallEnemy2 \<in> set (hitIds
        (projectilesAfter quietInput createPlayer pairRoom 400 300 pairAcc
           [wallEnemy, wallEnemy2] (Suc (Suc 0)) ! 0))"
    using update_projectile_hits [of pairState 0 quietInput "Suc 0" 0]
    by (simp add: facts d pair_after_record(1)) (simp add: pairAcc_def)
  have c: "\<not> isActive (projectilesAfter quietInput createPlayer pairRoom 400 300 pairAcc
           [wallEnemy, wallEnemy2] (Suc (Suc 0)) ! Suc 0)"
    using update_projectile_hits [of pairState "Suc 0" quietInput 0 0]
    by (simp add: facts d pair_after_record(1)) (simp add: pairAcc_def)
  from a b c pair_hits show ?thesis
    by (simp add: numeral_2_eq_2)
qed


subsection \<open>The simulation step: aborted room transition\<close>

lemma update_aborted:
  assumes "transitionAborted inp s"
  shows "currentRoomIndex (update inp s) = currentRoomIndex s"
    and "player (update inp s) =
           fold pickupPlayer
             (filter (touches (player s)
                  (fst (tentativePosition (player s) (rooms s ! currentRoomIndex s) inp))
                  (snd (tentativePosition (player s) (rooms s ! currentRoomIndex s) inp)))
                (items (rooms s ! currentRoomIndex s)))
             (player s)"
    and "\<exists>es its. rooms (update inp s) =
           (rooms s)[currentRoomIndex s :=
              (rooms s ! currentRoomIndex s)\<lparr>cleared := True, enemies := es, items := its\<rparr>]"
    and "length (projectiles (update inp s)) = length (projectiles s)"
proof -
  show "currentRoomIndex (update inp s) = currentRoomIndex s"
    using assms by (simp add: transitionAborted_def update_def Let_def split_def)
  show "player (update inp s) =
           fold pickupPlayer
             (filter (touches (player s)
                  (fst (tentativePosition (player s) (rooms s ! currentRoomIndex s) inp))
                  (snd (tentativePosition (player s) (rooms s ! currentRoomIndex s) inp)))
                (items (rooms s ! currentRoomIndex s)))
             (player s)"
    using assms
    by (simp add: transitionAborted_def update_def Let_def split_def
          player_fold_handleItemPickup)
  show "\<exists>es its. rooms (update inp s) =
           (rooms s)[currentRoomIndex s :=
              (rooms s ! currentRoomIndex s)\<lparr>cleared := True, enemies := es, items := its\<rparr>]"
    using assms by (simp add: transitionAborted_def update_def Let_def split_def) blast
  let ?nx = "fst (tentativePosition (player s) (rooms s ! currentRoomIndex s) inp)"
  let ?ny = "snd (tentativePosition (player s) (rooms s ! currentRoomIndex s) inp)"
  let ?sh = "fst (shoot (player s) inp (lastShotTime s) ?nx ?ny)"
  let ?init = "\<lparr>accProjectiles = projectiles s @ ?sh, accPlayerHit = False,
                  accSpawned = [], accVictory = False\<rparr>"
  let ?acc = "fst (enemiesLoop inp (player s) (rooms s ! currentRoomIndex s) ?nx ?ny 0 ?init
                (enemies (rooms s ! currentRoomIndex s)))"
  have a: "projectiles (update inp s) = take (length (projectiles s)) (accProjectiles ?acc)"
    using assms by (simp add: transitionAborted_def update_def Let_def split_def)
  have "length (accProjectiles ?init) \<le> length (accProjectiles ?acc)"
    by (rule length_enemiesLoop)
  then have b: "length (projectiles s) \<le> length (accProjectiles ?acc)"
    by simp
  from a b show "length (projectiles (update inp s)) = length (projectiles s)"
    by simp
qed

lemma update_aborted_quiet:
  assumes "transitionAborted inp s"
  shows "filter (touches (player s)
                  (fst (tentativePosition (player s) (rooms s ! currentRoomIndex s) inp))
                  (snd (tentativePosition (player s) (rooms s ! currentRoomIndex s) inp)))
                (items (rooms s ! currentRoomIndex s)) = []
         \<Longrightarrow> player (update inp s) = player s"
    and "list_all (\<lambda>e. \<not> isActive e) (enemies (rooms s ! currentRoomIndex s))
         \<Longrightarrow> projectiles (update inp s) = projectiles s"
    and "list_all (\<lambda>e. \<not> isActive e) (enemies (rooms s ! currentRoomIndex s))
         \<Longrightarrow> filter (touches (player s)
                  (fst (tentativePosition (player s) (rooms s ! currentRoomIndex s) inp))
                  (snd (tentativePosition (player s) (rooms s ! currentRoomIndex s) inp)))
                (items (rooms s ! currentRoomIndex s)) = []
         \<Longrightarrow> rooms (update inp s) =
           (rooms s)[currentRoomIndex s := (rooms s ! currentRoomIndex s)\<lparr>cleared := True\<rparr>]"
proof -
  let ?touched = "filter (touches (player s)
                  (fst (tentativePosition (player s) (rooms s ! currentRoomIndex s) inp))
                  (snd (tentativePosition (player s) (rooms s ! currentRoomIndex s) inp)))
                (items (rooms s ! currentRoomIndex s))"
  let ?quiet = "list_all (\<lambda>e. \<not> isActive e) (enemies (rooms s ! currentRoomIndex s))"
  show "player (update inp s) = player s" if "?touched = []"
    using that update_aborted(2) [OF assms] by simp
  show "projectiles (update inp s) = projectiles s" if "?quiet"
    using assms that
    by (simp add: transitionAborted_def update_def Let_def split_def enemiesLoop_inactive)
  show "rooms (update inp s) =
      (rooms s)[currentRoomIndex s := (rooms s ! currentRoomIndex s)\<lparr>cleared := True\<rparr>]"
    if q: "?quiet" and t: "?touched = []"
  proof -
    have m: "map (\<lambda>item. if touches (player s)
                  (fst (tentativePosition (player s) (rooms s ! currentRoomIndex s) inp))
                  (snd (tentativePosition (player s) (rooms s ! currentRoomIndex s) inp)) item
                  then item\<lparr>isActive := False\<rparr> else item) (items (rooms s ! currentRoomIndex s))
         = items (rooms s ! currentRoomIndex s)"
      using t by (simp add: filter_empty_conv map_idI)
    show ?thesis
      using assms q m
      by (simp add: transitionAborted_def update_def Let_def split_def enemiesLoop_inactive
            mutatedInPlace_same)
  qed
qed

lemma update_aborted_projectiles:
  assumes "transitionAborted inp s" and "i < length (projectiles s)"
  shows "later (projectiles s ! i) (projectiles (update inp s) ! i)"
proof -
  let ?room = "rooms s ! currentRoomIndex s"
  let ?nx = "fst (tentativePosition (player s) ?room inp)"
  let ?ny = "snd (tentativePosition (player s) ?room inp)"
  let ?init = "\<lparr>accProjectiles = projectiles s
      @ fst (shoot (player s) inp (lastShotTime s) ?nx ?ny),
      accPlayerHit = False, accSpawned = [], accVictory = False\<rparr>"
  let ?P = "projectilesAfter inp (player s) ?room ?nx ?ny ?init (enemies ?room)"
  have a: "projectiles (update inp s)
      = take (length (projectiles s)) (?P (length (enemies ?room)))"
    using assms(1)
    by (simp add: transitionAborted_def update_def Let_def split_def projectilesAfter_def)
  have "i < length (?P 0)"
    using assms(2) by (simp add: projectilesAfter_0)
  with projectilesAfter_later [of 0 "length (enemies ?room)" "enemies ?room" i
      inp "player s" ?room ?nx ?ny ?init]
  have "later (?P 0 ! i) (?P (length (enemies ?room)) ! i)"
    by simp
  with assms(2) show ?thesis
    by (simp add: a projectilesAfter_0 nth_append)
qed

lemma position_mutatedInPlace:
  "length es = length es'
   \<Longrightarrow> map (position \<circ> (\<lambda>p. mutatedInPlace (fst p) (snd p))) (zip es es')
       = map position es"
  by (induction es es' rule: list_induct2) (simp_all add: mutatedInPlace_def)

lemma update_aborted_enemies:
  assumes "transitionAborted inp s"
  shows "map position (enemies (rooms (update inp s) ! currentRoomIndex s))
       = map position (enemies (rooms s ! currentRoomIndex s))"
  using assms
  by (simp add: transitionAborted_def update_def Let_def split_def position_mutatedInPlace
        length_snd_enemiesLoop)

lemma position_pickupPlayer: "position (pickupPlayer item p) = position p"
  by (simp add: pickupPlayer_def Let_def)

lemma position_fold_pickupPlayer: "position (fold pickupPlayer its p) = position p"
  by (induction its arbitrary: p) (simp_all add: position_pickupPlayer)

lemma transitionAborted_door: "transitionAborted upInput doorState"
proof -
  have md: "moveDirection upInput = (0, -1)"
    by (simp add: moveDirection_def rawMove_def upInput_def quietInput_def)
  have c: "isRoomCleared doorRoom" and d: "hasDoor doorRoom UP"
    by (simp_all add: isRoomCleared_def hasDoor_def doorRoom_def)
  have tp: "tentativePosition (createPlayer\<lparr>position := \<lparr>vec_x = 400, vec_y = 22\<rparr>\<rparr>)
      doorRoom upInput = (400, 37 / 2)"
    by (simp add: tentativePosition_def md c d createPlayer_def constants_defs Let_def)
  have rs: "roomSwitch doorRoom 400 (37 / 2) = (True, 0, -1, 400, 520)"
    by (simp add: roomSwitch_def d constants_defs) (simp add: doorRoom_def)
  have g: "gridX doorRoom = 0" "gridY doorRoom = 0"
    by (simp_all add: doorRoom_def)
  show ?thesis
    by (simp add: transitionAborted_def doorState_def tp rs c g)
qed

text \<open>
  C5, as the code has it. When a room transition is triggered in a room that counts as
  cleared and no room exists at the target grid cell, the switch is aborted: the current
  room index stays, the step's new positions of the player and of the room's enemies are
  not committed, no projectile is added, moved or dropped, and no other room changes;
  but the vacated room is marked
  cleared all the same (the assignment precedes the search for the target room), and
  what the step has changed on the objects themselves stays changed. So the player state
  is unchanged unless the player touches an active item; the projectile list is unchanged
  unless the room has an active enemy; the room list changes in the vacated room only,
  and there in the \<^verbatim>\<open>cleared\<close> flag, which is true afterwards, and nowhere else unless
  the room has an active enemy or the player touches an active item.
\<close>

theorem update_transition_aborted:
  fixes inp s
  defines "room \<equiv> rooms s ! currentRoomIndex s"
  defines "touched \<equiv> filter (touches (player s)
                  (fst (tentativePosition (player s) room inp))
                  (snd (tentativePosition (player s) room inp))) (items room)"
    and "quiet \<equiv> list_all (\<lambda>e. \<not> isActive e) (enemies room)"
  assumes "transitionAborted inp s"
  shows "currentRoomIndex (update inp s) = currentRoomIndex s
       \<and> position (player (update inp s)) = position (player s)
       \<and> (touched = [] \<longrightarrow> player (update inp s) = player s)
       \<and> length (projectiles (update inp s)) = length (projectiles s)
       \<and> (\<forall>i < length (projectiles s).
             later (projectiles s ! i) (projectiles (update inp s) ! i))
       \<and> (quiet \<longrightarrow> projectiles (update inp s) = projectiles s)
       \<and> length (rooms (update inp s)) = length (rooms s)
       \<and> (\<forall>j < length (rooms s). j \<noteq> currentRoomIndex s
             \<longrightarrow> rooms (update inp s) ! j = rooms s ! j)
       \<and> cleared (rooms (update inp s) ! currentRoomIndex s)
       \<and> map position (enemies (rooms (update inp s) ! currentRoomIndex s))
           = map position (enemies room)
       \<and> (quiet \<and> touched = []
             \<longrightarrow> rooms (update inp s) = (rooms s)[currentRoomIndex s := room\<lparr>cleared := True\<rparr>])"
proof -
  from assms(4) have i: "currentRoomIndex s < length (rooms s)"
    by (simp add: transitionAborted_def)
  from update_aborted(3) [OF assms(4)] obtain es its where
    r: "rooms (update inp s) = (rooms s)[currentRoomIndex s :=
          (rooms s ! currentRoomIndex s)\<lparr>cleared := True, enemies := es, items := its\<rparr>]"
    by blast
  have "position (player (update inp s)) = position (player s)"
    by (simp add: update_aborted(2) [OF assms(4)] position_fold_pickupPlayer)
  moreover have "\<forall>j < length (rooms s). j \<noteq> currentRoomIndex s
      \<longrightarrow> rooms (update inp s) ! j = rooms s ! j"
    by (simp add: r)
  moreover have "cleared (rooms (update inp s) ! currentRoomIndex s)"
    using i by (simp add: r)
  ultimately show ?thesis
    using update_aborted(1,4) [OF assms(4)] update_aborted_quiet [OF assms(4)]
      update_aborted_projectiles [OF assms(4)] update_aborted_enemies [OF assms(4)]
    unfolding touched_def quiet_def room_def
    by (simp add: update_rooms_length)
qed

theorem update_transition_aborted_witness:
  "currentRoomIndex (update upInput doorState) = 0
   \<and> player (update upInput doorState) = player doorState
   \<and> projectiles (update upInput doorState) = []
   \<and> rooms (update upInput doorState) = [doorRoom\<lparr>cleared := True\<rparr>]"
  using update_transition_aborted [OF transitionAborted_door]
  by (simp add: doorState_def doorRoom_def)

text \<open>
  C5 as stated fails: in the example the transition is triggered, no room exists at the
  target cell, and the step sets the vacated room's \<^verbatim>\<open>cleared\<close> flag, which was false.
\<close>

theorem update_transition_aborted_counterexample:
  "transitionAborted upInput doorState
   \<and> \<not> cleared (rooms doorState ! currentRoomIndex doorState)
   \<and> cleared (rooms (update upInput doorState) ! currentRoomIndex doorState)
   \<and> rooms (update upInput doorState) \<noteq> rooms doorState"
proof -
  from update_aborted(3) [OF transitionAborted_door] obtain es its where
    r: "rooms (update upInput doorState) = (rooms doorState)[currentRoomIndex doorState :=
          (rooms doorState ! currentRoomIndex doorState)
             \<lparr>cleared := True, enemies := es, items := its\<rparr>]"
    by blast
  have c: "cleared (rooms (update upInput doorState) ! currentRoomIndex doorState)"
    by (simp add: r) (simp add: doorState_def)
  have n: "\<not> cleared (rooms doorState ! currentRoomIndex doorState)"
    by (simp add: doorState_def doorRoom_def)
  from c n have "rooms (update upInput doorState) \<noteq> rooms doorState"
    by metis
  with c n transitionAborted_door show ?thesis
    by simp
qed

subsection \<open>The simulation step: item pickup\<close>

lemma maxHealth_fold_pickupPlayer:
  "maxHealth (fold pickupPlayer its p)
     = maxHealth p + 2 * real (length (filter (\<lambda>item. itemType item = HEALTH) its))"
  by (induction its arbitrary: p) (simp_all add: pickupPlayer_def Let_def)

lemma update_player_frame:
  assumes "gameState s = PLAYING" and "currentRoomIndex s < length (rooms s)"
    and "\<not> (fst (roomSwitch (rooms s ! currentRoomIndex s)
                 (fst (tentativePosition (player s) (rooms s ! currentRoomIndex s) inp))
                 (snd (tentativePosition (player s) (rooms s ! currentRoomIndex s) inp)))
            \<and> isRoomCleared (rooms s ! currentRoomIndex s))"
  defines "p \<equiv> fold pickupPlayer
              (filter (touches (player s)
                  (fst (tentativePosition (player s) (rooms s ! currentRoomIndex s) inp))
                  (snd (tentativePosition (player s) (rooms s ! currentRoomIndex s) inp)))
                (items (rooms s ! currentRoomIndex s)))
              (player s)"
  shows "health (player (update inp s)) = health (player s)
           \<or> health (player (update inp s)) = health (player s) - 1"
    and "maxHealth (player (update inp s)) = maxHealth p"
    and "damage (player (update inp s)) = damage p"
    and "speed (player (update inp s)) = speed p"
    and "modifiers (player (update inp s)) = modifiers p"
  using assms(1-3) unfolding p_def
  by (simp_all add: update_def Let_def split_def player_fold_handleItemPickup)


lemma fold_pickupPlayer_no_health:
  "\<forall>item \<in> set its. itemType item \<noteq> HEALTH
   \<Longrightarrow> health (fold pickupPlayer its p) = health p
     \<and> maxHealth (fold pickupPlayer its p) = maxHealth p"
  by (induction its arbitrary: p) (simp_all add: pickupPlayer_def Let_def)

lemma health_fold_pickupPlayer:
  "\<exists>item \<in> set its. itemType item = HEALTH
   \<Longrightarrow> health (fold pickupPlayer its p) = maxHealth (fold pickupPlayer its p)"
proof (induction its arbitrary: p)
  case Nil
  then show ?case by simp
next
  case (Cons item its)
  show ?case
  proof (cases "\<exists>item \<in> set its. itemType item = HEALTH")
    case True
    then show ?thesis
      using Cons.IH by simp
  next
    case False
    with Cons.prems have "itemType item = HEALTH"
      by auto
    then have "health (pickupPlayer item p) = maxHealth (pickupPlayer item p)"
      by (simp add: pickupPlayer_def Let_def)
    with False fold_pickupPlayer_no_health [of its "pickupPlayer item p"] show ?thesis
      by simp
  qed
qed

lemma update_paused: "gameState s \<noteq> PLAYING \<Longrightarrow> update inp s = s"
  by (simp add: update_def)

lemma healItem_fields: "itemType healItem = HEALTH" "isActive healItem"
  by (simp_all add: healItem_def makeItem_def)

lemma moveDirection_up: "moveDirection upInput = (0, -1)"
  by (simp add: moveDirection_def rawMove_def upInput_def quietInput_def)

lemma healRoom_fields:
  "enemies healRoom = []" "items healRoom = [healItem]" "isRoomCleared healRoom"
  "hasDoor healRoom d = False"
  by (simp_all add: healRoom_def isRoomCleared_def hasDoor_def)

lemma tentativePosition_heal:
  "tentativePosition (createPlayer\<lparr>position := \<lparr>vec_x = 400, vec_y = 330\<rparr>, health := 3\<rparr>)
     healRoom upInput = (400, 653 / 2)"
  by (simp add: tentativePosition_def moveDirection_up healRoom_fields createPlayer_def
        constants_defs Let_def)

lemma sqrt_heal: "sqrt (2809 / 4) = 53 / 2" "sqrt 900 = 30"
  by (rule real_sqrt_unique; simp add: power2_eq_square)+

lemma touches_heal:
  "touches (createPlayer\<lparr>position := \<lparr>vec_x = 400, vec_y = 330\<rparr>, health := 3\<rparr>)
     400 (653 / 2) healItem"
  "\<not> touches (createPlayer\<lparr>position := \<lparr>vec_x = 400, vec_y = 330\<rparr>, health := 3\<rparr>)
     400 330 healItem"
  by (simp_all add: touches_def checkCollision_def getDistance_def healItem_def makeItem_def
        createPlayer_def constants_defs sqrt_heal)

lemma roomSwitch_heal: "fst (roomSwitch healRoom nx ny) = False"
  by (simp add: roomSwitch_def healRoom_fields)

lemma healState_fields:
  "gameState healState = PLAYING" "currentRoomIndex healState = 0" "rooms healState = [healRoom]"
  "player healState = createPlayer\<lparr>position := \<lparr>vec_x = 400, vec_y = 330\<rparr>, health := 3\<rparr>"
  "projectiles healState = []" "lastShotTime healState = 900"
  by (simp_all add: healState_def)

lemma shoot_up: "shoot p upInput 900 nx ny = ([], 900)"
  by (simp add: shoot_def upInput_def quietInput_def Let_def)

lemma update_heal:
  "health (player (update upInput healState)) = 3"
  "gameState (update upInput healState) = ITEM_PICKUP_ANIMATION"
  by (simp_all add: update_def healState_fields tentativePosition_heal touches_heal
        healRoom_fields roomSwitch_heal shoot_up advanceProjectiles_def Let_def split_def
        handleItemPickup_def)

text \<open>
  C4 fails on the code for HEALTH. \<^verbatim>\<open>handleItemPickup\<close> is called from \<^verbatim>\<open>update\<close> only, and
  only queues its updater. In a normal frame and in a bounce back, \<^verbatim>\<open>update\<close> then queues
  \<^verbatim>\<open>setPlayer(p => ({ ...p, ..., health: nextPlayerHealth, ... }))\<close>, where
  \<^verbatim>\<open>nextPlayerHealth\<close> was read from the player before the pickup, so the health the
  pickup has set (comment: \<^verbatim>\<open>// Full heal\<close>) is overwritten. In every such step the
  player's health afterwards is the old health, or one less when the player was damaged,
  while \<^verbatim>\<open>maxHealth\<close> has grown by 2 for every health item touched: a player who was not
  above full health and picks up a health item is below full health afterwards, and
  does not have the health the updater on its own would give. The other effects of the
  table (\<^verbatim>\<open>maxHealth\<close>, \<^verbatim>\<open>damage\<close>, \<^verbatim>\<open>speed\<close>, \<^verbatim>\<open>modifiers\<close>) do arrive.
\<close>

theorem update_health_pickup_not_restored:
  fixes inp s
  defines "room \<equiv> rooms s ! currentRoomIndex s"
  defines "picked \<equiv> filter (touches (player s)
                  (fst (tentativePosition (player s) room inp))
                  (snd (tentativePosition (player s) room inp))) (items room)"
  assumes "gameState s = PLAYING" and "currentRoomIndex s < length (rooms s)"
    and "\<not> (fst (roomSwitch room (fst (tentativePosition (player s) room inp))
                               (snd (tentativePosition (player s) room inp)))
            \<and> isRoomCleared room)"
  shows "(health (player (update inp s)) = health (player s)
           \<or> health (player (update inp s)) = health (player s) - 1)
       \<and> maxHealth (player (update inp s))
           = maxHealth (player s)
             + 2 * real (length (filter (\<lambda>item. itemType item = HEALTH) picked))
       \<and> ((\<exists>item \<in> set picked. itemType item = HEALTH)
             \<and> health (player s) \<le> maxHealth (player s)
            \<longrightarrow> health (player (update inp s)) < maxHealth (player (update inp s))
              \<and> health (player (update inp s))
                  \<noteq> health (fold pickupPlayer picked (player s)))
       \<and> damage (player (update inp s)) = damage (fold pickupPlayer picked (player s))
       \<and> speed (player (update inp s)) = speed (fold pickupPlayer picked (player s))
       \<and> modifiers (player (update inp s)) = modifiers (fold pickupPlayer picked (player s))"
proof -
  let ?n = "length (filter (\<lambda>item. itemType item = HEALTH) picked)"
  have h: "health (player (update inp s)) = health (player s)
      \<or> health (player (update inp s)) = health (player s) - 1"
    using update_player_frame(1) [OF assms(3,4)] assms(5) unfolding room_def by blast
  have m: "maxHealth (player (update inp s)) = maxHealth (player s) + 2 * real ?n"
    using update_player_frame(2) [OF assms(3,4)] assms(5)
    unfolding room_def picked_def by (simp add: maxHealth_fold_pickupPlayer)
  have d: "damage (player (update inp s)) = damage (fold pickupPlayer picked (player s))"
    "speed (player (update inp s)) = speed (fold pickupPlayer picked (player s))"
    "modifiers (player (update inp s)) = modifiers (fold pickupPlayer picked (player s))"
    using update_player_frame(3-5) [OF assms(3,4)] assms(5)
    unfolding room_def picked_def by simp_all
  have r: "health (player (update inp s)) < maxHealth (player (update inp s))
       \<and> health (player (update inp s)) \<noteq> health (fold pickupPlayer picked (player s))"
    if "\<exists>item \<in> set picked. itemType item = HEALTH"
      and "health (player s) \<le> maxHealth (player s)"
  proof -
    from that(1) have "filter (\<lambda>item. itemType item = HEALTH) picked \<noteq> []"
      by (simp add: filter_empty_conv)
    then have "0 < ?n"
      by simp
    then have n: "1 \<le> real ?n"
      by linarith
    have f: "health (fold pickupPlayer picked (player s))
        = maxHealth (player s) + 2 * real ?n"
      using health_fold_pickupPlayer [OF that(1), of "player s"]
      by (simp add: maxHealth_fold_pickupPlayer)
    from h show ?thesis
    proof
      assume "health (player (update inp s)) = health (player s)"
      with m n f that(2) show ?thesis
        by linarith
    next
      assume "health (player (update inp s)) = health (player s) - 1"
      with m n f that(2) show ?thesis
        by linarith
    qed
  qed
  from h m d r show ?thesis
    by blast
qed

text \<open>
  The example: the player with 3 of 6 health walks onto the health item. The updater on
  its own gives health 8; the step gives health 3 of 8, and so it stays while the
  pickup animation runs and when it ends.
\<close>

theorem update_health_pickup_not_restored_witness:
  "health (player healState) = 3 \<and> maxHealth (player healState) = 6
   \<and> health (player (handleItemPickup healItem healState)) = 8
   \<and> health (player (update upInput healState)) = 3
   \<and> maxHealth (player (update upInput healState)) = 8
   \<and> health (player (run [Frame upInput, Frame quietInput, PickupAnimationEnds] healState)) = 3"
proof -
  have p: "health (player healState) = 3" "maxHealth (player healState) = 6"
    "health (player (handleItemPickup healItem healState)) = 8"
    by (simp_all add: healState_def createPlayer_def handleItemPickup_def pickupPlayer_def
          healItem_fields)
  have "maxHealth (player (update upInput healState)) = maxHealth (player healState) + 2"
    using update_health_pickup_not_restored [of healState upInput]
    by (simp add: healState_fields tentativePosition_heal touches_heal healRoom_fields
          roomSwitch_heal healItem_fields)
  with p show ?thesis
    by (simp add: update_heal update_paused)
qed

end
